theory Spec2Isabelle
  imports Main "HOL-Library.Char_ord" "HOL-Library.List_Lexorder" "HOL-Library.Multiset"
begin

section \<open>Strings and numbers as Python and SQLite see them\<close>

text \<open>
  Strings are byte lists (\<open>string\<close>); dates and timestamps are ISO text and are
  compared the way SQLite compares TEXT with the BINARY collation: bytewise,
  lexicographically, a proper prefix being smaller. \<open>HOL-Library.Char_ord\<close> and
  \<open>HOL-Library.List_Lexorder\<close> give exactly this order on \<open>string\<close>.

  \<open>LOWER\<close> is SQLite's built-in \<open>LOWER()\<close>, which folds the ASCII letters only.
  \<open>upper\<close> folds the ASCII letters; Python's \<open>str.upper\<close> also maps other letters,
  but none of them to a letter of the tokens A, B, C, NA, DNP, and the handlers use its
  result only to compare it with these tokens.
\<close>

definition lower_char :: "char \<Rightarrow> char" where
  "lower_char c =
     (case map_of (zip ''ABCDEFGHIJKLMNOPQRSTUVWXYZ'' ''abcdefghijklmnopqrstuvwxyz'') c of
        Some d \<Rightarrow> d
      | None \<Rightarrow> c)"

definition LOWER :: "string \<Rightarrow> string" where
  "LOWER s = map lower_char s"

definition upper_char :: "char \<Rightarrow> char" where
  "upper_char c =
     (case map_of (zip ''abcdefghijklmnopqrstuvwxyz'' ''ABCDEFGHIJKLMNOPQRSTUVWXYZ'') c of
        Some d \<Rightarrow> d
      | None \<Rightarrow> c)"

definition upper :: "string \<Rightarrow> string" where
  "upper s = map upper_char s"

text \<open>
  The white space that Python's \<open>str.strip\<close> removes: the code points U+0009 to
  U+000D, U+001C to U+0020, U+0085, U+00A0, U+1680, U+2000 to U+200A, U+2028, U+2029,
  U+202F, U+205F and U+3000, each as its UTF-8 byte sequence.
\<close>

definition whitespace :: "string list" where
  "whitespace =
     [[CHR 0x09], [CHR 0x0A], [CHR 0x0B], [CHR 0x0C], [CHR 0x0D],
      [CHR 0x1C], [CHR 0x1D], [CHR 0x1E], [CHR 0x1F], [CHR 0x20],
      [CHR 0xC2, CHR 0x85], [CHR 0xC2, CHR 0xA0],
      [CHR 0xE1, CHR 0x9A, CHR 0x80],
      [CHR 0xE2, CHR 0x80, CHR 0x80], [CHR 0xE2, CHR 0x80, CHR 0x81],
      [CHR 0xE2, CHR 0x80, CHR 0x82], [CHR 0xE2, CHR 0x80, CHR 0x83],
      [CHR 0xE2, CHR 0x80, CHR 0x84], [CHR 0xE2, CHR 0x80, CHR 0x85],
      [CHR 0xE2, CHR 0x80, CHR 0x86], [CHR 0xE2, CHR 0x80, CHR 0x87],
      [CHR 0xE2, CHR 0x80, CHR 0x88], [CHR 0xE2, CHR 0x80, CHR 0x89],
      [CHR 0xE2, CHR 0x80, CHR 0x8A],
      [CHR 0xE2, CHR 0x80, CHR 0xA8], [CHR 0xE2, CHR 0x80, CHR 0xA9],
      [CHR 0xE2, CHR 0x80, CHR 0xAF],
      [CHR 0xE2, CHR 0x81, CHR 0x9F],
      [CHR 0xE3, CHR 0x80, CHR 0x80]]"

text \<open>
  \<open>match_len ws s\<close> is the length of the sequence of \<open>ws\<close> that \<open>s\<close> starts with
  (0 if there is none); \<open>drop_leading ws s\<close> removes such sequences from the front of
  \<open>s\<close> as long as there is one. \<open>strip\<close> does so at both ends.
\<close>

definition match_len :: "string list \<Rightarrow> string \<Rightarrow> nat" where
  "match_len ws s =
     (case find (\<lambda>w. take (length w) s = w) ws of None \<Rightarrow> 0 | Some w \<Rightarrow> length w)"

function drop_leading :: "string list \<Rightarrow> string \<Rightarrow> string" where
  "drop_leading ws s =
     (if match_len ws s = 0 then s else drop_leading ws (drop (match_len ws s) s))"
  by pat_completeness auto
termination
proof (relation "measure (\<lambda>(ws, s). length s)")
  show "wf (measure (\<lambda>(ws, s). length s))" by simp
next
  fix ws :: "string list" and s :: string
  assume m: "match_len ws s \<noteq> 0"
  have "s \<noteq> []"
  proof
    assume "s = []"
    then have "match_len ws s = 0"
      by (auto simp: match_len_def find_Some_iff split: option.splits)
    then show False using m by simp
  qed
  then show "((ws, drop (match_len ws s) s), (ws, s)) \<in> measure (\<lambda>(ws, s). length s)"
    using m by simp
qed

declare drop_leading.simps [simp del]

definition strip :: "string \<Rightarrow> string" where
  "strip s = rev (drop_leading (map rev whitespace) (rev (drop_leading whitespace s)))"

text \<open>Decimal digits of a natural number, most significant first.\<close>

function digits :: "nat \<Rightarrow> string" where
  "digits n =
     (if n < 10 then [''0123456789'' ! n]
      else digits (n div 10) @ [''0123456789'' ! (n mod 10)])"
  by pat_completeness auto
termination
  by (relation "measure id") auto

declare digits.simps [simp del]

text \<open>\<open>str_int i\<close> is Python's \<open>str(i)\<close>, as an f-string field \<open>{i}\<close> prints it.\<close>

definition str_int :: "int \<Rightarrow> string" where
  "str_int i = (if i < 0 then CHR ''-'' # digits (nat (- i)) else digits (nat i))"




section \<open>Messaging policy (app.py, \<open>get_encouraging_message\<close>)\<close>

record message =
  msg_text :: string
  msg_type :: string
  msg_emoji :: string

text \<open>The emoji are stored as their UTF-8 bytes.\<close>

definition emoji_high_voltage :: string where
  "emoji_high_voltage = [CHR 0xE2, CHR 0x9A, CHR 0xA1]"

definition emoji_fire :: string where
  "emoji_fire = [CHR 0xF0, CHR 0x9F, CHR 0x94, CHR 0xA5]"

definition emoji_party :: string where
  "emoji_party = [CHR 0xF0, CHR 0x9F, CHR 0x8E, CHR 0x89]"

definition emoji_trophy :: string where
  "emoji_trophy = [CHR 0xF0, CHR 0x9F, CHR 0x8F, CHR 0x86]"

definition get_encouraging_message :: "string \<Rightarrow> int \<Rightarrow> int \<Rightarrow> message" where
  "get_encouraging_message response successful_count target =
     (let remaining = target - successful_count in
      if response \<in> set [''A'', ''B'', ''C''] \<and> remaining = 1 then
        \<lparr>msg_text = ''You're on Rampage, let's get it done!'',
         msg_type = ''rampage'',
         msg_emoji = emoji_high_voltage @ emoji_fire\<rparr>
      else if response \<in> set [''A'', ''B'', ''C''] then
        (if remaining \<le> 0 then
           \<lparr>msg_text = ''Target achieved! Keep the momentum going!'',
            msg_type = ''success'',
            msg_emoji = emoji_party @ emoji_trophy\<rparr>
         else
           \<lparr>msg_text = ''Great, '' @ str_int remaining @ '' to go!'',
            msg_type = ''success'',
            msg_emoji = emoji_party\<rparr>)
      else if response = ''NA'' then
        \<lparr>msg_text = ''Call this guy next time, let's go for next!'',
         msg_type = ''followup'',
         msg_emoji = emoji_fire\<rparr>
      else
        \<lparr>msg_text = ''Someone's waiting for your call. Let's reach till there!'',
         msg_type = ''retry'',
         msg_emoji = emoji_fire @ emoji_fire\<rparr>)"


section \<open>SQL building blocks\<close>

text \<open>
  \<open>ORDER BY\<close> is a stable insertion sort under the comparison of the clause: rows that
  tie on every key keep their incoming order, which for a scan of a table is the order
  of insertion. SQL itself leaves the order of such ties to the engine; the statements
  about ordered results below speak of the sort keys only.
\<close>

fun insort_by :: "('a \<Rightarrow> 'a \<Rightarrow> bool) \<Rightarrow> 'a \<Rightarrow> 'a list \<Rightarrow> 'a list" where
  "insort_by le x [] = [x]"
| "insort_by le x (y # ys) = (if le x y then x # y # ys else y # insort_by le x ys)"

definition sort_by :: "('a \<Rightarrow> 'a \<Rightarrow> bool) \<Rightarrow> 'a list \<Rightarrow> 'a list" where
  "sort_by le xs = foldr (insort_by le) xs []"

text \<open>
  \<open>GROUP BY key\<close>: one group per distinct key, each group paired with its key and
  holding the rows of that key in table order; the groups come out in ascending key
  order (SQLite groups by sorting).
\<close>

definition group_by :: "('a \<Rightarrow> string) \<Rightarrow> 'a list \<Rightarrow> (string \<times> 'a list) list" where
  "group_by key rows =
     map (\<lambda>k. (k, filter (\<lambda>r. key r = k) rows)) (sort (remdups (map key rows)))"


section \<open>The store (database.py)\<close>

record call =
  call_id :: int
  call_name :: string
  call_response :: string
  call_date :: string
  call_created_at :: string

record contact =
  contact_id :: int
  contact_name :: string
  contact_date :: string
  contact_created_at :: string

text \<open>
  The three tables. \<open>daily_targets\<close> has the date as primary key, so it is a map.
  \<open>calls\<close> and \<open>contacts\<close> are lists in insertion (rowid) order. The two
  \<open>AUTOINCREMENT\<close> counters hold the largest id handed out so far.
\<close>

record db =
  daily_targets :: "string \<rightharpoonup> int"
  calls :: "call list"
  contacts :: "contact list"
  calls_seq :: int
  contacts_seq :: int

definition init_db :: db where
  "init_db = \<lparr>daily_targets = Map.empty, calls = [], contacts = [],
              calls_seq = 0, contacts_seq = 0\<rparr>"

datatype error = ValueError string | IntegrityError | OverflowError

text \<open>
  An integer bound to a parameter of a statement must fit SQLite's 64-bit
  \<open>INTEGER\<close>; otherwise the binding raises \<open>OverflowError\<close> and the statement does
  not run.
\<close>

definition in_int64 :: "int \<Rightarrow> bool" where
  "in_int64 v \<longleftrightarrow> - (2 ^ 63) \<le> v \<and> v < 2 ^ 63"

text \<open>The \<open>CHECK\<close> constraint of column \<open>calls.response\<close>.\<close>

definition check_response :: "string \<Rightarrow> bool" where
  "check_response r \<longleftrightarrow> r \<in> set [''A'', ''B'', ''C'', ''NA'', ''DNP'', ''CATCHUP'']"

text \<open>
  Every function of database.py takes an optional date that defaults to today; app.py
  always passes the date, so the model takes it as a plain argument. \<open>now\<close> is the
  value of \<open>CURRENT_TIMESTAMP\<close> at the insert.
\<close>

definition get_daily_target :: "string \<Rightarrow> db \<Rightarrow> int option" where
  "get_daily_target target_date st = daily_targets st target_date"

definition set_daily_target :: "int \<Rightarrow> string \<Rightarrow> db \<Rightarrow> error + db" where
  "set_daily_target target target_date st =
     (if \<not> in_int64 target then Inl OverflowError
      else Inr (st\<lparr>daily_targets := (daily_targets st)(target_date \<mapsto> target)\<rparr>))"

definition database_add_call ::
  "string \<Rightarrow> string \<Rightarrow> string \<Rightarrow> string \<Rightarrow> db \<Rightarrow> error + (int \<times> db)" where
  "database_add_call name response on_date now st =
     (if \<not> check_response response then Inl IntegrityError
      else
        let new_id = calls_seq st + 1 in
        Inr (new_id,
             st\<lparr>calls := calls st @
                   [\<lparr>call_id = new_id, call_name = name, call_response = response,
                     call_date = on_date, call_created_at = now\<rparr>],
                calls_seq := new_id\<rparr>))"

definition database_delete_call :: "int \<Rightarrow> db \<Rightarrow> error + (bool \<times> db)" where
  "database_delete_call cid st =
     (if \<not> in_int64 cid then Inl OverflowError
      else
        Inr (list_ex (\<lambda>k. call_id k = cid) (calls st),
             st\<lparr>calls := filter (\<lambda>k. call_id k \<noteq> cid) (calls st)\<rparr>))"

definition database_update_call :: "int \<Rightarrow> string \<Rightarrow> db \<Rightarrow> error + (bool \<times> db)" where
  "database_update_call cid response st =
     (if \<not> in_int64 cid then Inl OverflowError
      else if list_ex (\<lambda>k. call_id k = cid) (calls st) \<and> \<not> check_response response
      then Inl IntegrityError
      else
        Inr (list_ex (\<lambda>k. call_id k = cid) (calls st),
             st\<lparr>calls := map (\<lambda>k. if call_id k = cid then k\<lparr>call_response := response\<rparr> else k)
                              (calls st)\<rparr>))"

subsection \<open>Statistics of a date (\<open>get_today_stats\<close>)\<close>

text \<open>
  The Python dict \<open>stats\<close> is an association list in insertion order. A key that is
  read is always one of the eight initial keys, and no key is ever removed, so the
  lookup cannot raise \<open>KeyError\<close>.
\<close>

type_synonym stats = "(string \<times> int) list"

definition dict_get :: "stats \<Rightarrow> string \<Rightarrow> int" where
  "dict_get d k = (case map_of d k of Some v \<Rightarrow> v | None \<Rightarrow> 0)"

fun dict_set :: "string \<Rightarrow> int \<Rightarrow> stats \<Rightarrow> stats" where
  "dict_set k v [] = [(k, v)]"
| "dict_set k v ((k', v') # d) = (if k' = k then (k, v) # d else (k', v') # dict_set k v d)"

definition initial_stats :: stats where
  "initial_stats =
     [(''A'', 0), (''B'', 0), (''C'', 0), (''NA'', 0), (''DNP'', 0), (''CATCHUP'', 0),
      (''total'', 0), (''successful'', 0)]"

text \<open>\<open>SELECT response, COUNT(*) FROM calls WHERE date = ? GROUP BY response\<close>\<close>

definition response_counts :: "string \<Rightarrow> db \<Rightarrow> (string \<times> int) list" where
  "response_counts on_date st =
     map (\<lambda>(response, g). (response, int (length g)))
       (group_by call_response (filter (\<lambda>k. call_date k = on_date) (calls st)))"

definition stats_step :: "string \<times> int \<Rightarrow> stats \<Rightarrow> stats" where
  "stats_step row stats =
     (let response = fst row; count = snd row;
          stats1 = (if response \<in> set (map fst stats) then dict_set response count stats
                    else stats);
          stats2 = dict_set ''total'' (dict_get stats1 ''total'' + count) stats1
      in if response \<in> set [''A'', ''B'', ''C'']
         then dict_set ''successful'' (dict_get stats2 ''successful'' + count) stats2
         else stats2)"

definition get_today_stats :: "string \<Rightarrow> db \<Rightarrow> stats" where
  "get_today_stats on_date st = fold stats_step (response_counts on_date st) initial_stats"


subsection \<open>Counting the calls of a date\<close>

text \<open>The eight keys of the statistics dict, in the order of the Python literal.\<close>

definition stats_keys :: "string list" where
  "stats_keys = [''A'', ''B'', ''C'', ''NA'', ''DNP'', ''CATCHUP'', ''total'', ''successful'']"


text \<open>The number of rows of \<open>calls\<close> with the given date and response.\<close>

definition count_calls :: "string \<Rightarrow> string \<Rightarrow> db \<Rightarrow> int" where
  "count_calls on_date response st =
     int (length (filter (\<lambda>k. call_date k = on_date \<and> call_response k = response) (calls st)))"

text \<open>
  The table invariant that the \<open>CHECK\<close> constraint maintains: every stored response
  is one of the six admitted tokens.
\<close>

definition calls_checked :: "db \<Rightarrow> bool" where
  "calls_checked st \<longleftrightarrow> list_all (\<lambda>k. check_response (call_response k)) (calls st)"

text \<open>A store with four calls on two dates, used to run the functions on.\<close>

definition stats_example :: db where
  "stats_example =
     \<lparr>daily_targets = Map.empty,
      calls = [\<lparr>call_id = 1, call_name = ''Bob'', call_response = ''A'',
                call_date = ''2024-01-02'', call_created_at = ''2024-01-02 10:00:00''\<rparr>,
               \<lparr>call_id = 2, call_name = ''Eve'', call_response = ''DNP'',
                call_date = ''2024-01-02'', call_created_at = ''2024-01-02 10:05:00''\<rparr>,
               \<lparr>call_id = 3, call_name = ''Ann'', call_response = ''A'',
                call_date = ''2024-01-02'', call_created_at = ''2024-01-02 10:06:00''\<rparr>,
               \<lparr>call_id = 4, call_name = ''Ann'', call_response = ''CATCHUP'',
                call_date = ''2024-01-03'', call_created_at = ''2024-01-03 10:06:00''\<rparr>],
      contacts = [], calls_seq = 4, contacts_seq = 0\<rparr>"


subsection \<open>Contacts\<close>

definition contact_exists_anywhere :: "string \<Rightarrow> db \<Rightarrow> bool" where
  "contact_exists_anywhere name st =
     list_ex (\<lambda>c. LOWER (contact_name c) = LOWER name) (contacts st)"

definition contact_exists_for_date :: "string \<Rightarrow> string \<Rightarrow> db \<Rightarrow> bool" where
  "contact_exists_for_date name target_date st =
     list_ex (\<lambda>c. contact_name c = name \<and> contact_date c = target_date) (contacts st)"

text \<open>
  \<open>add_contact\<close> of database.py. The two \<open>raise ValueError\<close> are the first two
  branches; the third is the \<open>UNIQUE(name, date)\<close> constraint of the table, which
  the insert would violate.
\<close>

definition database_add_contact ::
  "string \<Rightarrow> string \<Rightarrow> bool \<Rightarrow> string \<Rightarrow> db \<Rightarrow> error + (int \<times> db)" where
  "database_add_contact name on_date skip_global_check now st =
     (if contact_exists_for_date name on_date st then
        Inl (ValueError (''Contact '' @ [CHR 0x27] @ name @ [CHR 0x27] @
                         '' already in today's list''))
      else if \<not> skip_global_check \<and> contact_exists_anywhere name st then
        Inl (ValueError (''Contact '' @ [CHR 0x27] @ name @ [CHR 0x27] @ '' already exists''))
      else if list_ex (\<lambda>c. contact_name c = name \<and> contact_date c = on_date) (contacts st) then
        Inl IntegrityError
      else
        let new_id = contacts_seq st + 1 in
        Inr (new_id,
             st\<lparr>contacts := contacts st @
                   [\<lparr>contact_id = new_id, contact_name = name, contact_date = on_date,
                     contact_created_at = now\<rparr>],
                contacts_seq := new_id\<rparr>))"

definition database_delete_contact :: "int \<Rightarrow> db \<Rightarrow> error + (bool \<times> db)" where
  "database_delete_contact cid st =
     (if \<not> in_int64 cid then Inl OverflowError
      else
        Inr (list_ex (\<lambda>c. contact_id c = cid) (contacts st),
             st\<lparr>contacts := filter (\<lambda>c. contact_id c \<noteq> cid) (contacts st)\<rparr>))"

subsection \<open>The contacts of a date (\<open>get_contacts_for_date\<close>)\<close>

text \<open>
  \<open>call_before k k'\<close>: row \<open>k\<close> sorts before row \<open>k'\<close>, or ties with it, under
  \<open>ORDER BY date DESC, created_at DESC\<close>.
\<close>

definition call_before :: "call \<Rightarrow> call \<Rightarrow> bool" where
  "call_before k k' \<longleftrightarrow>
     call_date k' < call_date k \<or>
     (call_date k' = call_date k \<and> call_created_at k' \<le> call_created_at k)"

text \<open>
  \<open>SELECT ... FROM calls WHERE calls.name = ? ORDER BY date DESC, created_at DESC LIMIT 1\<close>,
  and likewise the row with \<open>ROW_NUMBER() = 1\<close> of the partition of that name.
\<close>

definition latest_call :: "string \<Rightarrow> db \<Rightarrow> call option" where
  "latest_call name st =
     (case sort_by call_before (filter (\<lambda>k. call_name k = name) (calls st)) of
        [] \<Rightarrow> None
      | k # _ \<Rightarrow> Some k)"

text \<open>The \<open>WHERE\<close> clause of the query, for one row \<open>c\<close> of \<open>contacts\<close>.\<close>

definition carried_to :: "string \<Rightarrow> db \<Rightarrow> contact \<Rightarrow> bool" where
  "carried_to target_date st c \<longleftrightarrow>
     contact_date c = target_date \<or>
     (contact_date c < target_date \<and>
        \<not> list_ex (\<lambda>k. call_name k = contact_name c) (calls st)) \<or>
     (contact_date c < target_date \<and>
        map_option call_response (latest_call (contact_name c) st) = Some ''DNP'') \<or>
     (contact_date c < target_date \<and>
        list_ex (\<lambda>k. call_name k = contact_name c \<and> call_date k = target_date) (calls st))"

record contact_row =
  row_id :: int
  row_name :: string
  added_date :: string
  has_call_today :: int

text \<open>
  One output row per group, paired with \<open>MIN(c.created_at)\<close>, the second sort key,
  which is not among the selected columns.
\<close>

definition contact_group_row :: "string \<Rightarrow> db \<Rightarrow> string \<times> contact list \<Rightarrow> contact_row \<times> string" where
  "contact_group_row target_date st grp =
     (\<lparr>row_id = Max (set (map contact_id (snd grp))),
       row_name = fst grp,
       added_date = Max (set (map contact_date (snd grp))),
       has_call_today =
         (if list_ex (\<lambda>k. call_name k = fst grp \<and> call_date k = target_date) (calls st)
          then 1 else 0)\<rparr>,
      Min (set (map contact_created_at (snd grp))))"

text \<open>\<open>ORDER BY has_call_today DESC, MIN(c.created_at) ASC\<close>\<close>

definition contact_row_before :: "contact_row \<times> string \<Rightarrow> contact_row \<times> string \<Rightarrow> bool" where
  "contact_row_before r r' \<longleftrightarrow>
     has_call_today (fst r') < has_call_today (fst r) \<or>
     (has_call_today (fst r') = has_call_today (fst r) \<and> snd r \<le> snd r')"

definition get_contacts_for_date :: "string \<Rightarrow> db \<Rightarrow> contact_row list" where
  "get_contacts_for_date target_date st =
     map fst
       (sort_by contact_row_before
          (map (contact_group_row target_date st)
             (group_by contact_name (filter (carried_to target_date st) (contacts st)))))"



text \<open>A contact registered on day 1, before and after its first call on day 2.\<close>

definition day_one_example :: db where
  "day_one_example =
     \<lparr>daily_targets = Map.empty, calls = [],
      contacts = [\<lparr>contact_id = 1, contact_name = ''Bob'', contact_date = ''2024-01-01'',
                   contact_created_at = ''2024-01-01 08:00:00''\<rparr>],
      calls_seq = 0, contacts_seq = 1\<rparr>"

definition day_two_example :: db where
  "day_two_example =
     day_one_example
       \<lparr>calls := [\<lparr>call_id = 1, call_name = ''Bob'', call_response = ''A'',
                   call_date = ''2024-01-02'', call_created_at = ''2024-01-02 09:00:00''\<rparr>],
        calls_seq := 1\<rparr>"





subsection \<open>Summary of all contacts (\<open>get_all_contacts_summary\<close>)\<close>

record summary_row =
  sum_id :: int
  sum_name :: string
  sum_added_date :: string
  latest_response :: "string option"
  last_called_date :: "string option"
  dnp_count :: int
  display_response :: string

text \<open>
  The subquery \<open>dnp_counts\<close> joined on the name, with \<open>COALESCE(..., 0)\<close>: the number
  of DNP calls of the name.
\<close>

definition dnp_calls :: "string \<Rightarrow> db \<Rightarrow> int" where
  "dnp_calls name st =
     int (length (filter (\<lambda>k. call_response k = ''DNP'' \<and> call_name k = name) (calls st)))"

text \<open>
  Both joins are on the name and yield at most one row per name, so every contact row
  gives one joined row, and the joined columns are the same throughout a group of
  \<open>GROUP BY c.name\<close>. The bare columns \<open>c.id\<close> and \<open>c.date\<close> come from one row of
  the group, which SQL lets the engine choose. SQLite scans \<open>contacts\<close> by the index
  of \<open>UNIQUE(name, date)\<close> and takes the first row of the group it meets, the one with
  the least date. A group is never empty, so the first case of \<open>summary_group_row\<close>
  yields no row.
\<close>

definition summary_group_row :: "db \<Rightarrow> string \<times> contact list \<Rightarrow> summary_row option" where
  "summary_group_row st grp =
     (case sort_by (\<lambda>c c'. contact_date c \<le> contact_date c') (snd grp) of
        [] \<Rightarrow> None
      | c # _ \<Rightarrow>
          Some \<lparr>sum_id = contact_id c,
                sum_name = fst grp,
                sum_added_date = contact_date c,
                latest_response = map_option call_response (latest_call (fst grp) st),
                last_called_date = map_option call_date (latest_call (fst grp) st),
                dnp_count = dnp_calls (fst grp) st,
                display_response =
                  (case latest_call (fst grp) st of
                     None \<Rightarrow> ''UN''
                   | Some k \<Rightarrow> call_response k)\<rparr>)"

text \<open>
  \<open>ORDER BY CASE WHEN latest.response IS NULL THEN 1 ELSE 0 END, latest.date DESC,
  c.name ASC\<close>. SQLite sorts \<open>NULL\<close> below every value, so under \<open>DESC\<close> it comes
  last.
\<close>

definition null_flag :: "'a option \<Rightarrow> nat" where
  "null_flag v = (case v of None \<Rightarrow> 1 | Some _ \<Rightarrow> 0)"

definition date_desc_less :: "string option \<Rightarrow> string option \<Rightarrow> bool" where
  "date_desc_less d d' =
     (case (d, d') of
        (Some x, Some y) \<Rightarrow> y < x
      | (Some x, None) \<Rightarrow> True
      | (None, _) \<Rightarrow> False)"

definition summary_row_before :: "summary_row \<Rightarrow> summary_row \<Rightarrow> bool" where
  "summary_row_before r r' \<longleftrightarrow>
     null_flag (latest_response r) < null_flag (latest_response r') \<or>
     (null_flag (latest_response r) = null_flag (latest_response r') \<and>
      (date_desc_less (last_called_date r) (last_called_date r') \<or>
       (last_called_date r = last_called_date r' \<and> sum_name r \<le> sum_name r')))"

definition get_all_contacts_summary :: "string list option \<Rightarrow> db \<Rightarrow> summary_row list" where
  "get_all_contacts_summary filters st =
     (let results =
            sort_by summary_row_before
              (List.map_filter (summary_group_row st) (group_by contact_name (contacts st)))
      in case filters of
           None \<Rightarrow> results
         | Some fs \<Rightarrow>
             if fs \<noteq> [] \<and> length fs > 0
             then filter (\<lambda>r. display_response r \<in> set fs) results
             else results)"

text \<open>A store in which Eve has two DNP calls and Dan a DNP call followed by an A.\<close>

definition summary_example :: db where
  "summary_example =
     \<lparr>daily_targets = Map.empty,
      calls = [\<lparr>call_id = 1, call_name = ''Eve'', call_response = ''DNP'',
                call_date = ''2024-01-01'', call_created_at = ''2024-01-01 09:00:00''\<rparr>,
               \<lparr>call_id = 2, call_name = ''Dan'', call_response = ''DNP'',
                call_date = ''2024-01-01'', call_created_at = ''2024-01-01 09:30:00''\<rparr>,
               \<lparr>call_id = 3, call_name = ''Dan'', call_response = ''A'',
                call_date = ''2024-01-02'', call_created_at = ''2024-01-02 09:40:00''\<rparr>,
               \<lparr>call_id = 4, call_name = ''Eve'', call_response = ''DNP'',
                call_date = ''2024-01-02'', call_created_at = ''2024-01-02 09:50:00''\<rparr>,
               \<lparr>call_id = 5, call_name = ''Ann'', call_response = ''B'',
                call_date = ''2024-01-02'', call_created_at = ''2024-01-02 09:55:00''\<rparr>],
      contacts = [\<lparr>contact_id = 1, contact_name = ''Bob'', contact_date = ''2024-01-01'',
                   contact_created_at = ''2024-01-01 08:00:00''\<rparr>,
                  \<lparr>contact_id = 2, contact_name = ''Eve'', contact_date = ''2024-01-01'',
                   contact_created_at = ''2024-01-01 08:01:00''\<rparr>,
                  \<lparr>contact_id = 3, contact_name = ''Dan'', contact_date = ''2024-01-01'',
                   contact_created_at = ''2024-01-01 08:02:00''\<rparr>,
                  \<lparr>contact_id = 4, contact_name = ''Ann'', contact_date = ''2024-01-02'',
                   contact_created_at = ''2024-01-02 08:00:00''\<rparr>,
                  \<lparr>contact_id = 5, contact_name = ''Eve'', contact_date = ''2024-01-02'',
                   contact_created_at = ''2024-01-02 08:00:00''\<rparr>,
                  \<lparr>contact_id = 6, contact_name = ''Zed'', contact_date = ''2024-01-02'',
                   contact_created_at = ''2024-01-02 08:00:00''\<rparr>],
      calls_seq = 5, contacts_seq = 6\<rparr>"


text \<open>
  The order the claim gives to the summary: attempted contacts before un-attempted
  ones, attempted ones by descending date of the latest call, ties by ascending name.
\<close>

definition summary_listed_before :: "summary_row \<Rightarrow> summary_row \<Rightarrow> bool" where
  "summary_listed_before r r' =
     (case (last_called_date r, last_called_date r') of
        (Some d, Some d') \<Rightarrow> d' < d \<or> (d' = d \<and> sum_name r \<le> sum_name r')
      | (Some d, None) \<Rightarrow> True
      | (None, Some d') \<Rightarrow> False
      | (None, None) \<Rightarrow> sum_name r \<le> sum_name r')"


subsection \<open>Achievements of a month (\<open>get_month_achievements\<close>)\<close>











section \<open>The request handlers (app.py)\<close>

text \<open>
  A handler takes the fields of the JSON body (absent fields are \<open>None\<close>), the current
  date \<open>today\<close> (\<open>database.get_today()\<close>), the current timestamp \<open>now\<close> and the
  store; it returns the store and the response. One request is served within one
  \<open>now\<close>. A response is its status code and its JSON body; \<open>ErrorBody msg\<close> is
  \<open>{"error": msg}\<close>, every other constructor a body with \<open>"success": true\<close> (the
  redundant counts of the batch reply are the lengths of its two lists). An exception
  that no handler catches makes the framework answer with status 500.
\<close>

datatype body =
    ErrorBody string
  | SetTargetOk int
  | AddCallOk int string stats message
  | DeleteCallOk stats int
  | UpdateCallOk stats message
  | AddContactOk int string
  | DeleteContactOk
  | AddToTodayOk bool "int option" string
  | AddMultipleOk "string list" "string list"
  | Uncaught

record http_response =
  status :: nat
  body :: body

definition json_error :: "string \<Rightarrow> nat \<Rightarrow> http_response" where
  "json_error msg code = \<lparr>status = code, body = ErrorBody msg\<rparr>"

definition jsonify :: "body \<Rightarrow> http_response" where
  "jsonify b = \<lparr>status = 200, body = b\<rparr>"

definition uncaught :: http_response where
  "uncaught = \<lparr>status = 500, body = Uncaught\<rparr>"

text \<open>\<open>data.get(key, default)\<close>\<close>

definition json_get :: "'a option \<Rightarrow> 'a \<Rightarrow> 'a" where
  "json_get field dflt = (case field of None \<Rightarrow> dflt | Some v \<Rightarrow> v)"

text \<open>\<open>str(e)\<close> of the exceptions the store raises.\<close>

definition str_error :: "error \<Rightarrow> string" where
  "str_error e =
     (case e of
        ValueError msg \<Rightarrow> msg
      | IntegrityError \<Rightarrow> ''UNIQUE constraint failed: contacts.name, contacts.date''
      | OverflowError \<Rightarrow> ''Python int too large to convert to SQLite INTEGER'')"

definition set_target :: "int option \<Rightarrow> string option \<Rightarrow> string \<Rightarrow> db \<Rightarrow> db \<times> http_response" where
  "set_target target_field date_field today st =
     (let target = json_get target_field 0;
          selected_date = json_get date_field today
      in if target < 1 then (st, json_error ''Target must be at least 1'' 400)
         else
           case set_daily_target target selected_date st of
             Inl e \<Rightarrow> (st, uncaught)
           | Inr st' \<Rightarrow> (st', jsonify (SetTargetOk target)))"

definition add_call ::
  "string option \<Rightarrow> string option \<Rightarrow> string option \<Rightarrow> string \<Rightarrow> string \<Rightarrow> db \<Rightarrow>
   db \<times> http_response" where
  "add_call name_field response_field date_field today now st =
     (let name = strip (json_get name_field '''');
          response = upper (json_get response_field '''');
          selected_date = json_get date_field today
      in if name = [] then (st, json_error ''Name is required'' 400)
         else if response \<notin> set [''A'', ''B'', ''C'', ''NA'', ''DNP'']
         then (st, json_error ''Invalid response type'' 400)
         else
           case database_add_call name response selected_date now st of
             Inl e \<Rightarrow> (st, uncaught)
           | Inr (new_id, st') \<Rightarrow>
               let stats = get_today_stats selected_date st';
                   target = (case get_daily_target selected_date st' of
                               None \<Rightarrow> 0
                             | Some t \<Rightarrow> t);
                   message = get_encouraging_message response (dict_get stats ''successful'') target
               in (st', jsonify (AddCallOk new_id name stats message)))"

text \<open>\<open>if not call_id\<close> is true for an absent id and for the id 0.\<close>

definition falsy_id :: "int option \<Rightarrow> bool" where
  "falsy_id field \<longleftrightarrow> field = None \<or> field = Some 0"

definition delete_call :: "int option \<Rightarrow> string option \<Rightarrow> string \<Rightarrow> db \<Rightarrow> db \<times> http_response" where
  "delete_call id_field date_field today st =
     (let selected_date = json_get date_field today
      in if falsy_id id_field then (st, json_error ''Call ID is required'' 400)
         else
           case database_delete_call (json_get id_field 0) st of
             Inl e \<Rightarrow> (st, uncaught)
           | Inr (deleted, st') \<Rightarrow>
               if deleted then
                 let stats = get_today_stats selected_date st';
                     target = (case get_daily_target selected_date st' of
                                 None \<Rightarrow> 0
                               | Some t \<Rightarrow> t)
                 in (st', jsonify (DeleteCallOk stats target))
               else (st', json_error ''Call not found'' 404))"

definition update_call ::
  "int option \<Rightarrow> string option \<Rightarrow> string option \<Rightarrow> string \<Rightarrow> db \<Rightarrow> db \<times> http_response" where
  "update_call id_field response_field date_field today st =
     (let response = upper (json_get response_field '''');
          selected_date = json_get date_field today
      in if falsy_id id_field then (st, json_error ''Call ID is required'' 400)
         else if response \<notin> set [''A'', ''B'', ''C'', ''NA'', ''DNP'']
         then (st, json_error ''Invalid response type'' 400)
         else
           case database_update_call (json_get id_field 0) response st of
             Inl e \<Rightarrow> (st, uncaught)
           | Inr (updated, st') \<Rightarrow>
               if updated then
                 let stats = get_today_stats selected_date st';
                     target = (case get_daily_target selected_date st' of
                                 None \<Rightarrow> 0
                               | Some t \<Rightarrow> t);
                     message = get_encouraging_message response (dict_get stats ''successful'') target
                 in (st', jsonify (UpdateCallOk stats message))
               else (st', json_error ''Call not found'' 404))"

definition add_contact ::
  "string option \<Rightarrow> string option \<Rightarrow> string \<Rightarrow> string \<Rightarrow> db \<Rightarrow> db \<times> http_response" where
  "add_contact name_field date_field today now st =
     (let name = strip (json_get name_field '''');
          selected_date = json_get date_field today
      in if name = [] then (st, json_error ''Name is required'' 400)
         else
           case database_add_contact name selected_date False now st of
             Inr (new_id, st') \<Rightarrow> (st', jsonify (AddContactOk new_id name))
           | Inl (ValueError msg) \<Rightarrow> (st, json_error msg 400)
           | Inl e \<Rightarrow> (st, json_error (''Failed to add contact: '' @ str_error e) 400))"

definition delete_contact :: "int option \<Rightarrow> db \<Rightarrow> db \<times> http_response" where
  "delete_contact id_field st =
     (if falsy_id id_field then (st, json_error ''Contact ID is required'' 400)
      else
        case database_delete_contact (json_get id_field 0) st of
          Inl e \<Rightarrow> (st, uncaught)
        | Inr (deleted, st') \<Rightarrow>
            if deleted then (st', jsonify DeleteContactOk)
            else (st', json_error ''Contact not found'' 404))"

definition add_to_today :: "string option \<Rightarrow> string \<Rightarrow> string \<Rightarrow> db \<Rightarrow> db \<times> http_response" where
  "add_to_today name_field today now st =
     (let name = strip (json_get name_field '''')
      in if name = [] then (st, json_error ''Name is required'' 400)
         else
           case database_add_contact name today True now st of
             Inr (new_id, st') \<Rightarrow> (st', jsonify (AddToTodayOk False (Some new_id) name))
           | Inl (ValueError msg) \<Rightarrow> (st, jsonify (AddToTodayOk True None name))
           | Inl e \<Rightarrow> (st, json_error (str_error e) 400))"

text \<open>
  An element of the JSON array \<open>names\<close>: a string, or a value of another JSON type.
\<close>

datatype json_item = JString string | JOther

text \<open>
  The loop of \<open>add_multiple_to_today\<close>, with the store and the two lists \<open>added\<close>
  and \<open>skipped\<close> as its state. The bare \<open>except\<close> catches every exception of
  \<open>database.add_contact\<close>. \<open>name.strip()\<close> stands before the \<open>try\<close>: on an element
  that is not a string it raises \<open>AttributeError\<close>, which ends the request (\<open>Inl\<close>)
  with the store as the inserts made so far have left it, each insert being committed
  by \<open>add_contact\<close>.
\<close>

fun add_names ::
  "string \<Rightarrow> string \<Rightarrow> json_item list \<Rightarrow> db \<times> string list \<times> string list \<Rightarrow>
   db + (db \<times> string list \<times> string list)" where
  "add_names today now [] acc = Inr acc"
| "add_names today now (JOther # names) (st, added, skipped) = Inl st"
| "add_names today now (JString raw # names) (st, added, skipped) =
     (let name = strip raw
      in if name = [] then add_names today now names (st, added, skipped)
         else
           case database_add_contact name today True now st of
             Inr (new_id, st') \<Rightarrow> add_names today now names (st', added @ [name], skipped)
           | Inl e \<Rightarrow> add_names today now names (st, added, skipped @ [name]))"

definition add_multiple_to_today ::
  "json_item list option \<Rightarrow> string \<Rightarrow> string \<Rightarrow> db \<Rightarrow> db \<times> http_response" where
  "add_multiple_to_today names_field today now st =
     (let names = json_get names_field []
      in if names = [] then (st, json_error ''Names are required'' 400)
         else
           case add_names today now names (st, [], []) of
             Inl st' \<Rightarrow> (st', uncaught)
           | Inr (st', added, skipped) \<Rightarrow> (st', jsonify (AddMultipleOk added skipped)))"

subsection \<open>The system as a transition system\<close>

text \<open>
  The routes that change the store. The remaining routes (\<open>/\<close>, \<open>/stats\<close>,
  \<open>/contacts\<close>, \<open>/summary\<close>, \<open>/month-achievements\<close>) call only functions of
  database.py that issue \<open>SELECT\<close> statements.
\<close>

datatype request =
    SetTarget "int option" "string option"
  | AddCall "string option" "string option" "string option"
  | DeleteCall "int option" "string option"
  | UpdateCall "int option" "string option" "string option"
  | AddContact "string option" "string option"
  | DeleteContact "int option"
  | AddToToday "string option"
  | AddMultipleToToday "json_item list option"

fun handle :: "request \<Rightarrow> string \<Rightarrow> string \<Rightarrow> db \<Rightarrow> db \<times> http_response" where
  "handle (SetTarget target date) today now st = set_target target date today st"
| "handle (AddCall name response date) today now st = add_call name response date today now st"
| "handle (DeleteCall cid date) today now st = delete_call cid date today st"
| "handle (UpdateCall cid response date) today now st = update_call cid response date today st"
| "handle (AddContact name date) today now st = add_contact name date today now st"
| "handle (DeleteContact cid) today now st = delete_contact cid st"
| "handle (AddToToday name) today now st = add_to_today name today now st"
| "handle (AddMultipleToToday names) today now st = add_multiple_to_today names today now st"

inductive reachable :: "db \<Rightarrow> bool" where
  initial: "reachable init_db"
| step: "reachable st \<Longrightarrow> reachable (fst (handle req today now st))"

definition is_error_response :: "http_response \<Rightarrow> bool" where
  "is_error_response r \<longleftrightarrow>
     400 \<le> status r \<and> status r < 500 \<and> (case body r of ErrorBody msg \<Rightarrow> True | _ \<Rightarrow> False)"


section \<open>The messaging policy\<close>

text \<open>
  Claim C8. \<open>get_encouraging_message\<close> is a function of its three arguments alone. With
  \<open>remaining = target - successful_count\<close>: for an outcome among A, B, C the message is
  the Rampage one (type \<open>rampage\<close>) when \<open>remaining = 1\<close>, the achieved one (type
  \<open>success\<close>, text "Target achieved! ...") when \<open>remaining \<le> 0\<close>, and otherwise the
  progress one (type \<open>success\<close>), whose text carries the decimal value of
  \<open>remaining\<close>; NA gives type \<open>followup\<close> and DNP gives type \<open>retry\<close>. At
  \<open>(A, 4, 5)\<close> it is Rampage, at \<open>(A, 5, 5)\<close> achieved, and at \<open>(A, 3, 5)\<close> the
  progress text is "Great, 2 to go!".
\<close>

theorem get_encouraging_message_kinds:
  "(response \<in> {''A'', ''B'', ''C''} \<and> target - successful_count = 1 \<longrightarrow>
      msg_type (get_encouraging_message response successful_count target) = ''rampage'' \<and>
      msg_text (get_encouraging_message response successful_count target) =
        ''You're on Rampage, let's get it done!'') \<and>
   (response \<in> {''A'', ''B'', ''C''} \<and> target - successful_count \<le> 0 \<longrightarrow>
      msg_type (get_encouraging_message response successful_count target) = ''success'' \<and>
      msg_text (get_encouraging_message response successful_count target) =
        ''Target achieved! Keep the momentum going!'') \<and>
   (response \<in> {''A'', ''B'', ''C''} \<and> 1 < target - successful_count \<longrightarrow>
      msg_type (get_encouraging_message response successful_count target) = ''success'' \<and>
      msg_text (get_encouraging_message response successful_count target) =
        ''Great, '' @ str_int (target - successful_count) @ '' to go!'') \<and>
   msg_type (get_encouraging_message ''NA'' successful_count target) = ''followup'' \<and>
   msg_type (get_encouraging_message ''DNP'' successful_count target) = ''retry'' \<and>
   msg_type (get_encouraging_message ''A'' 4 5) = ''rampage'' \<and>
   msg_text (get_encouraging_message ''A'' 5 5) = ''Target achieved! Keep the momentum going!'' \<and>
   msg_text (get_encouraging_message ''A'' 3 5) = ''Great, 2 to go!''"
  by (auto simp: get_encouraging_message_def Let_def str_int_def digits.simps)

theorem get_encouraging_message_kinds_witness:
  "msg_type (get_encouraging_message ''B'' 4 5) = ''rampage'' \<and>
   msg_type (get_encouraging_message ''B'' 7 5) = ''success'' \<and>
   msg_text (get_encouraging_message ''B'' 7 5) = ''Target achieved! Keep the momentum going!'' \<and>
   msg_type (get_encouraging_message ''C'' 2 14) = ''success'' \<and>
   msg_text (get_encouraging_message ''C'' 2 14) = ''Great, 12 to go!''"
  using get_encouraging_message_kinds [of "''B''" 5 4]
    get_encouraging_message_kinds [of "''B''" 5 7]
    get_encouraging_message_kinds [of "''C''" 14 2]
  by (simp add: str_int_def digits.simps)


section \<open>Statistics of a date\<close>

subsection \<open>The dict operations\<close>

lemma map_of_dict_set: "map_of (dict_set k v d) = (map_of d)(k \<mapsto> v)"
  by (induction d) (auto simp: fun_eq_iff)

lemma keys_dict_set: "k \<in> set (map fst d) \<Longrightarrow> map fst (dict_set k v d) = map fst d"
  by (induction d) force+

lemma dict_get_dict_set: "dict_get (dict_set k v d) k' = (if k' = k then v else dict_get d k')"
  by (simp add: dict_get_def map_of_dict_set)

lemma keys_stats_step: "map fst s = stats_keys \<Longrightarrow> map fst (stats_step row s) = stats_keys"
  by (auto simp: stats_step_def Let_def keys_dict_set stats_keys_def)

lemma keys_fold_stats_step:
  "map fst s = stats_keys \<Longrightarrow> map fst (fold stats_step rows s) = stats_keys"
  by (induction rows arbitrary: s) (simp_all add: keys_stats_step)

lemma get_stats_step:
  assumes "map fst s = stats_keys" "check_response (fst row)"
  shows "dict_get (stats_step row s) k =
     (if k = fst row then snd row
      else if k = ''total'' then dict_get s ''total'' + snd row
      else if k = ''successful'' \<and> fst row \<in> {''A'', ''B'', ''C''}
        then dict_get s ''successful'' + snd row
      else dict_get s k)"
  using assms
  by (auto simp: stats_step_def Let_def dict_get_dict_set stats_keys_def check_response_def)


lemma get_fold_stats_step:
  assumes "map fst s = stats_keys" "\<forall>row\<in>set rows. check_response (fst row)"
    "distinct (map fst rows)"
  shows "dict_get (fold stats_step rows s) k =
     (if check_response k then (case map_of rows k of Some c \<Rightarrow> c | None \<Rightarrow> dict_get s k)
      else if k = ''total'' then dict_get s ''total'' + sum_list (map snd rows)
      else if k = ''successful'' then dict_get s ''successful'' +
             sum_list (map snd (filter (\<lambda>row. fst row \<in> {''A'', ''B'', ''C''}) rows))
      else dict_get s k)"
  using assms
proof (induction rows arbitrary: s)
  case Nil
  then show ?case by simp
next
  case (Cons row rows)
  obtain r c where row: "row = (r, c)" by (cases row)
  have keys: "map fst (stats_step row s) = stats_keys"
    using Cons.prems(1) by (rule keys_stats_step)
  have chk: "check_response r" using Cons.prems(2) row by simp
  have notin: "map_of rows r = None"
    using Cons.prems(3) row by (simp add: map_of_eq_None_iff)
  have nt: "\<not> check_response ''total''" "\<not> check_response ''successful''"
    by (simp_all add: check_response_def)
  have step: "\<And>k. dict_get (stats_step row s) k =
     (if k = r then c
      else if k = ''total'' then dict_get s ''total'' + c
      else if k = ''successful'' \<and> r \<in> {''A'', ''B'', ''C''}
        then dict_get s ''successful'' + c
      else dict_get s k)"
    using get_stats_step [OF Cons.prems(1), of "(r, c)"] chk unfolding row by fastforce
  have IH: "dict_get (fold stats_step rows (stats_step row s)) k =
     (if check_response k then (case map_of rows k of Some c \<Rightarrow> c | None \<Rightarrow> dict_get (stats_step row s) k)
      else if k = ''total'' then dict_get (stats_step row s) ''total'' + sum_list (map snd rows)
      else if k = ''successful'' then dict_get (stats_step row s) ''successful'' +
             sum_list (map snd (filter (\<lambda>row. fst row \<in> {''A'', ''B'', ''C''}) rows))
      else dict_get (stats_step row s) k)"
    using Cons.IH [OF keys] Cons.prems(2,3) by simp
  show ?case
  proof (cases "check_response k")
    case True
    then show ?thesis using IH step notin chk nt row
      by (cases "k = r") (auto split: option.splits)
  next
    case False
    then have "k \<noteq> r" using chk by auto
    then show ?thesis using IH step False chk nt row
      by (simp add: check_response_def)
  qed
qed


lemma length_filter_disj:
  "(\<And>x. x \<in> set xs \<Longrightarrow> \<not> (P x \<and> Q x)) \<Longrightarrow>
   length (filter P xs) + length (filter Q xs) = length (filter (\<lambda>x. P x \<or> Q x) xs)"
  by (induction xs) auto

lemma sum_group_lengths:
  "distinct ys \<Longrightarrow>
   (\<Sum>k\<leftarrow>ys. int (length (filter (\<lambda>r. f r = k) xs))) =
   int (length (filter (\<lambda>r. f r \<in> set ys) xs))"
proof (induction ys)
  case Nil
  then show ?case by simp
next
  case (Cons y ys)
  have "length (filter (\<lambda>r. f r = y) xs) + length (filter (\<lambda>r. f r \<in> set ys) xs) =
        length (filter (\<lambda>r. f r = y \<or> f r \<in> set ys) xs)"
    using Cons.prems by (intro length_filter_disj) auto
  then show ?case using Cons by simp
qed

lemma group_by_keys: "map fst (group_by key rows) = sort (remdups (map key rows))"
  by (simp add: group_by_def comp_def)

lemma group_by_distinct: "distinct (map fst (group_by key rows))"
  by (simp add: group_by_keys)

lemma group_by_set_keys: "set (map fst (group_by key rows)) = key ` set rows"
  by (simp add: group_by_keys)

lemma response_counts_eq:
  "response_counts d st =
     map (\<lambda>k. (k, int (length (filter (\<lambda>r. call_response r = k)
                                  (filter (\<lambda>k. call_date k = d) (calls st))))))
       (sort (remdups (map call_response (filter (\<lambda>k. call_date k = d) (calls st)))))"
  by (simp add: response_counts_def group_by_def)

lemma map_of_tabulate:
  "map_of (map (\<lambda>k. (k, g k)) ys) k = (if k \<in> set ys then Some (g k) else None)"
  by (induction ys) auto

lemma response_counts_lookup:
  "(case map_of (response_counts d st) r of Some c \<Rightarrow> c | None \<Rightarrow> 0) =
   int (length (filter (\<lambda>k. call_date k = d \<and> call_response k = r) (calls st)))"
proof -
  have "r \<notin> call_response ` set (filter (\<lambda>k. call_date k = d) (calls st)) \<Longrightarrow>
        filter (\<lambda>k. call_date k = d \<and> call_response k = r) (calls st) = []"
    by (auto simp: filter_empty_conv)
  then show ?thesis
    by (auto simp: response_counts_eq map_of_tabulate conj_commute)
qed

lemma response_counts_total:
  "sum_list (map snd (response_counts d st)) =
   int (length (filter (\<lambda>k. call_date k = d) (calls st)))"
proof -
  let ?ks = "filter (\<lambda>k. call_date k = d) (calls st)"
  let ?ys = "sort (remdups (map call_response ?ks))"
  have "sum_list (map snd (response_counts d st)) =
        (\<Sum>k\<leftarrow>?ys. int (length (filter (\<lambda>r. call_response r = k) ?ks)))"
    by (simp add: response_counts_eq comp_def)
  also have "\<dots> = int (length (filter (\<lambda>r. call_response r \<in> set ?ys) ?ks))"
    by (rule sum_group_lengths) simp
  also have "filter (\<lambda>r. call_response r \<in> set ?ys) ?ks = ?ks"
    by (auto intro: filter_cong)
  finally show ?thesis .
qed

lemma response_counts_successful:
  "sum_list (map snd (filter (\<lambda>row. fst row \<in> {''A'', ''B'', ''C''}) (response_counts d st))) =
   int (length (filter (\<lambda>k. call_date k = d \<and> call_response k \<in> {''A'', ''B'', ''C''}) (calls st)))"
proof -
  let ?ks = "filter (\<lambda>k. call_date k = d) (calls st)"
  let ?ys = "filter (\<lambda>r. r \<in> {''A'', ''B'', ''C''}) (sort (remdups (map call_response ?ks)))"
  have "sum_list (map snd (filter (\<lambda>row. fst row \<in> {''A'', ''B'', ''C''}) (response_counts d st))) =
        (\<Sum>k\<leftarrow>?ys. int (length (filter (\<lambda>r. call_response r = k) ?ks)))"
    by (simp add: response_counts_eq filter_map comp_def)
  also have "\<dots> = int (length (filter (\<lambda>r. call_response r \<in> set ?ys) ?ks))"
    by (rule sum_group_lengths) simp
  also have "filter (\<lambda>r. call_response r \<in> set ?ys) ?ks =
             filter (\<lambda>k. call_date k = d \<and> call_response k \<in> {''A'', ''B'', ''C''}) (calls st)"
    by (auto intro: filter_cong)
  finally show ?thesis .
qed


lemma six_way_split:
  assumes "\<forall>k\<in>set ks. check_response (call_response k)"
  shows "length ks =
     length (filter (\<lambda>k. call_response k = ''A'') ks) +
     length (filter (\<lambda>k. call_response k = ''B'') ks) +
     length (filter (\<lambda>k. call_response k = ''C'') ks) +
     length (filter (\<lambda>k. call_response k = ''NA'') ks) +
     length (filter (\<lambda>k. call_response k = ''DNP'') ks) +
     length (filter (\<lambda>k. call_response k = ''CATCHUP'') ks)"
  using assms by (induction ks) (auto simp: check_response_def)

lemma three_way_split:
  "length (filter (\<lambda>k. call_response k \<in> {''A'', ''B'', ''C''}) ks) =
     length (filter (\<lambda>k. call_response k = ''A'') ks) +
     length (filter (\<lambda>k. call_response k = ''B'') ks) +
     length (filter (\<lambda>k. call_response k = ''C'') ks)"
  by (induction ks) auto

lemma initial_keys: "map fst initial_stats = stats_keys"
  by (simp add: initial_stats_def stats_keys_def)

lemma response_counts_checked:
  "calls_checked st \<Longrightarrow> \<forall>row\<in>set (response_counts d st). check_response (fst row)"
  by (auto simp: response_counts_eq calls_checked_def list_all_iff)

lemma response_counts_distinct: "distinct (map fst (response_counts d st))"
  by (simp add: response_counts_eq comp_def)

lemma initial_stats_zero: "dict_get initial_stats k = 0"
  by (simp add: dict_get_def initial_stats_def)

lemma stats_outcome:
  assumes "calls_checked st" "check_response r"
  shows "dict_get (get_today_stats d st) r = count_calls d r st"
proof -
  have "dict_get (get_today_stats d st) r =
        (case map_of (response_counts d st) r of Some c \<Rightarrow> c | None \<Rightarrow> dict_get initial_stats r)"
    unfolding get_today_stats_def
    by (subst get_fold_stats_step [OF initial_keys response_counts_checked [OF assms(1)]
          response_counts_distinct]) (simp only: assms(2) if_True)
  also have "\<dots> = (case map_of (response_counts d st) r of Some c \<Rightarrow> c | None \<Rightarrow> 0)"
    by (simp only: initial_stats_zero)
  also have "\<dots> = count_calls d r st"
    unfolding count_calls_def by (rule response_counts_lookup)
  finally show ?thesis .
qed

lemma not_checked_total: "\<not> check_response ''total''" "\<not> check_response ''successful''"
  by (simp_all add: check_response_def)

lemma stats_total:
  assumes "calls_checked st"
  shows "dict_get (get_today_stats d st) ''total'' =
         int (length (filter (\<lambda>k. call_date k = d) (calls st)))"
proof -
  have "dict_get (get_today_stats d st) ''total'' =
        dict_get initial_stats ''total'' + sum_list (map snd (response_counts d st))"
    unfolding get_today_stats_def
    by (subst get_fold_stats_step [OF initial_keys response_counts_checked [OF assms(1)]
          response_counts_distinct]) (simp only: not_checked_total if_False if_True refl)
  then show ?thesis
    by (simp only: initial_stats_zero response_counts_total)
qed

lemma stats_successful:
  assumes "calls_checked st"
  shows "dict_get (get_today_stats d st) ''successful'' =
         int (length (filter (\<lambda>k. call_date k = d \<and> call_response k \<in> {''A'', ''B'', ''C''}) (calls st)))"
proof -
  have ne: "''successful'' \<noteq> ''total''" by simp
  have "dict_get (get_today_stats d st) ''successful'' =
        dict_get initial_stats ''successful'' +
        sum_list (map snd (filter (\<lambda>row. fst row \<in> {''A'', ''B'', ''C''}) (response_counts d st)))"
    unfolding get_today_stats_def
    by (subst get_fold_stats_step [OF initial_keys response_counts_checked [OF assms(1)]
          response_counts_distinct]) (simp only: not_checked_total ne if_False if_True refl)
  then show ?thesis
    by (simp only: initial_stats_zero response_counts_successful)
qed



text \<open>
  Claim C6. In a store whose calls satisfy the \<open>CHECK\<close> constraint, the statistics of
  any date \<open>d\<close> carry exactly the keys A, B, C, NA, DNP, CATCHUP, total and successful
  (zero where no call exists); each outcome key holds the number of calls dated \<open>d\<close>
  with that outcome; total is the sum of the six outcome keys, and successful is
  A + B + C.
\<close>

theorem get_today_stats_counts:
  assumes "calls_checked st"
  shows "map fst (get_today_stats d st) =
           [''A'', ''B'', ''C'', ''NA'', ''DNP'', ''CATCHUP'', ''total'', ''successful''] \<and>
         (\<forall>r \<in> {''A'', ''B'', ''C'', ''NA'', ''DNP'', ''CATCHUP''}.
            dict_get (get_today_stats d st) r = count_calls d r st) \<and>
         dict_get (get_today_stats d st) ''total'' =
           dict_get (get_today_stats d st) ''A'' + dict_get (get_today_stats d st) ''B'' +
           dict_get (get_today_stats d st) ''C'' + dict_get (get_today_stats d st) ''NA'' +
           dict_get (get_today_stats d st) ''DNP'' + dict_get (get_today_stats d st) ''CATCHUP'' \<and>
         dict_get (get_today_stats d st) ''successful'' =
           dict_get (get_today_stats d st) ''A'' + dict_get (get_today_stats d st) ''B'' +
           dict_get (get_today_stats d st) ''C''"
proof -
  let ?ks = "filter (\<lambda>k. call_date k = d) (calls st)"
  have keys: "map fst (get_today_stats d st) =
           [''A'', ''B'', ''C'', ''NA'', ''DNP'', ''CATCHUP'', ''total'', ''successful'']"
    using keys_fold_stats_step [OF initial_keys] by (simp add: get_today_stats_def stats_keys_def)
  have each: "\<And>r. check_response r \<Longrightarrow> dict_get (get_today_stats d st) r = count_calls d r st"
    using assms by (rule stats_outcome)
  have chk: "\<forall>k\<in>set ?ks. check_response (call_response k)"
    using assms by (simp add: calls_checked_def list_all_iff)
  have cnt: "\<And>r. count_calls d r st = int (length (filter (\<lambda>k. call_response k = r) ?ks))"
    by (simp add: count_calls_def conj_commute)
  have six: "check_response ''A''" "check_response ''B''" "check_response ''C''"
    "check_response ''NA''" "check_response ''DNP''" "check_response ''CATCHUP''"
    by (simp_all add: check_response_def)
  have total: "dict_get (get_today_stats d st) ''total'' = int (length ?ks)"
    using assms by (rule stats_total)
  have succ: "dict_get (get_today_stats d st) ''successful'' =
      int (length (filter (\<lambda>k. call_response k \<in> {''A'', ''B'', ''C''}) ?ks))"
    using stats_successful [OF assms, of d] by (simp add: conj_commute)
  have c1: "\<forall>r \<in> {''A'', ''B'', ''C'', ''NA'', ''DNP'', ''CATCHUP''}.
            dict_get (get_today_stats d st) r = count_calls d r st"
    using each six by blast
  have c2: "dict_get (get_today_stats d st) ''total'' =
           dict_get (get_today_stats d st) ''A'' + dict_get (get_today_stats d st) ''B'' +
           dict_get (get_today_stats d st) ''C'' + dict_get (get_today_stats d st) ''NA'' +
           dict_get (get_today_stats d st) ''DNP'' + dict_get (get_today_stats d st) ''CATCHUP''"
    unfolding total each [OF six(1)] each [OF six(2)] each [OF six(3)] each [OF six(4)]
      each [OF six(5)] each [OF six(6)] cnt
    using six_way_split [OF chk] by linarith
  have c3: "dict_get (get_today_stats d st) ''successful'' =
           dict_get (get_today_stats d st) ''A'' + dict_get (get_today_stats d st) ''B'' +
           dict_get (get_today_stats d st) ''C''"
    unfolding succ each [OF six(1)] each [OF six(2)] each [OF six(3)] cnt
    using three_way_split [of ?ks] by linarith
  show ?thesis using keys c1 c2 c3 by blast
qed


theorem get_today_stats_counts_witness:
  "calls_checked stats_example \<and>
   get_today_stats ''2024-01-02'' stats_example =
     [(''A'', 2), (''B'', 0), (''C'', 0), (''NA'', 0), (''DNP'', 1), (''CATCHUP'', 0),
      (''total'', 3), (''successful'', 2)] \<and>
   count_calls ''2024-01-02'' ''A'' stats_example = 2 \<and>
   get_today_stats ''2024-01-04'' stats_example = initial_stats"
  using get_today_stats_counts [of stats_example "''2024-01-02''"]
  by (simp add: calls_checked_def stats_example_def check_response_def count_calls_def
      get_today_stats_def response_counts_def group_by_def stats_step_def initial_stats_def
      dict_get_def Let_def)


section \<open>Contacts of a date\<close>

subsection \<open>Sorting and grouping\<close>

lemma mset_insort_by: "mset (insort_by le x xs) = add_mset x (mset xs)"
  by (induction xs) auto

lemma mset_sort_by: "mset (sort_by le xs) = mset xs"
  by (induction xs) (simp_all add: sort_by_def mset_insort_by)

lemma set_sort_by: "set (sort_by le xs) = set xs"
  using mset_sort_by [of le xs] by (metis set_mset_mset)

lemma distinct_map_sort_by: "distinct (map f (sort_by le xs)) = distinct (map f xs)"
proof -
  have "mset (map f (sort_by le xs)) = mset (map f xs)"
    by (simp add: mset_sort_by)
  then show ?thesis by (rule mset_eq_imp_distinct_iff)
qed

lemma set_insort_by: "set (insort_by le x xs) = insert x (set xs)"
  using mset_insort_by [of le x xs] by (metis set_mset_mset set_mset_add_mset_insert)

lemma sorted_insort_by:
  assumes total: "\<And>a b. le a b \<or> le b a"
    and trans: "\<And>a b c. le a b \<Longrightarrow> le b c \<Longrightarrow> le a c"
  shows "sorted_wrt le xs \<Longrightarrow> sorted_wrt le (insort_by le x xs)"
proof (induction xs)
  case Nil
  then show ?case by simp
next
  case (Cons y ys)
  show ?case
  proof (cases "le x y")
    case True
    then have "\<forall>z\<in>set ys. le x z" using Cons.prems trans by auto
    then show ?thesis using True Cons.prems by simp
  next
    case False
    then have "le y x" using total by blast
    then show ?thesis using False Cons by (auto simp: set_insort_by)
  qed
qed

lemma sorted_sort_by:
  assumes "\<And>a b. le a b \<or> le b a"
    and "\<And>a b c. le a b \<Longrightarrow> le b c \<Longrightarrow> le a c"
  shows "sorted_wrt le (sort_by le xs)"
proof (induction xs)
  case Nil
  then show ?case by (simp add: sort_by_def)
next
  case (Cons x xs)
  have "sorted_wrt le (insort_by le x (sort_by le xs))"
    using assms Cons by (rule sorted_insort_by)
  then show ?case by (simp add: sort_by_def)
qed

lemma group_by_member:
  "(n, g) \<in> set (group_by key rows) \<longleftrightarrow>
   n \<in> key ` set rows \<and> g = filter (\<lambda>r. key r = n) rows"
  by (auto simp: group_by_def)

subsection \<open>The latest call of a name\<close>

lemma call_before_total: "call_before a b \<or> call_before b a"
  by (auto simp: call_before_def)

lemma call_before_trans: "call_before a b \<Longrightarrow> call_before b c \<Longrightarrow> call_before a c"
  by (auto simp: call_before_def)

lemma latest_call_None:
  "latest_call n st = None \<longleftrightarrow> (\<forall>k\<in>set (calls st). call_name k \<noteq> n)"
proof -
  have "sort_by call_before (filter (\<lambda>k. call_name k = n) (calls st)) = [] \<longleftrightarrow>
        filter (\<lambda>k. call_name k = n) (calls st) = []"
    by (metis mset_sort_by mset_zero_iff)
  then show ?thesis
    by (auto simp: latest_call_def filter_empty_conv split: list.splits)
qed

lemma latest_call_Some:
  assumes "latest_call n st = Some k"
  shows "k \<in> set (calls st) \<and> call_name k = n \<and>
         (\<forall>k'\<in>set (calls st). call_name k' = n \<longrightarrow> call_before k k')"
proof -
  let ?ks = "filter (\<lambda>k. call_name k = n) (calls st)"
  obtain rest where srt: "sort_by call_before ?ks = k # rest"
    using assms by (auto simp: latest_call_def split: list.splits)
  have "sorted_wrt call_before (k # rest)"
    using sorted_sort_by [of call_before ?ks] call_before_total call_before_trans
    unfolding srt by blast
  then have le: "\<forall>k'\<in>set (k # rest). call_before k k'"
    using call_before_total by auto
  have "set (k # rest) = set ?ks"
    using set_sort_by [of call_before ?ks] unfolding srt by simp
  then show ?thesis using le by auto
qed

subsection \<open>The contacts of a date\<close>

lemma contact_group_row_name: "row_name (fst (contact_group_row d st grp)) = fst grp"
  by (simp add: contact_group_row_def)

lemma get_contacts_for_date_names:
  "map row_name (get_contacts_for_date d st) =
   map (\<lambda>p. row_name (fst p))
     (sort_by contact_row_before
        (map (contact_group_row d st)
           (group_by contact_name (filter (carried_to d st) (contacts st)))))"
  by (simp add: get_contacts_for_date_def)

lemma set_get_contacts_for_date_names:
  "set (map row_name (get_contacts_for_date d st)) =
   contact_name ` {c \<in> set (contacts st). carried_to d st c}"
proof -
  have "set (map row_name (get_contacts_for_date d st)) =
        (\<lambda>grp. row_name (fst (contact_group_row d st grp))) `
          set (group_by contact_name (filter (carried_to d st) (contacts st)))"
    unfolding get_contacts_for_date_names by (simp add: set_sort_by image_image)
  also have "\<dots> = set (map fst (group_by contact_name (filter (carried_to d st) (contacts st))))"
    by (simp add: contact_group_row_name)
  also have "\<dots> = contact_name ` {c \<in> set (contacts st). carried_to d st c}"
    by (simp add: group_by_def comp_def)
  finally show ?thesis .
qed


lemma carried_to_iff:
  "carried_to d st c \<longleftrightarrow>
     contact_date c = d \<or>
     (contact_date c < d \<and>
        ((\<forall>k\<in>set (calls st). call_name k \<noteq> contact_name c) \<or>
         (\<exists>k. latest_call (contact_name c) st = Some k \<and> call_response k = ''DNP'') \<or>
         (\<exists>k\<in>set (calls st). call_name k = contact_name c \<and> call_date k = d)))"
  by (auto simp: carried_to_def list_ex_iff)

lemma latest_call_after_first_add:
  assumes "\<forall>k\<in>set (calls st). call_name k \<noteq> n"
    and "database_add_call n r d now st = Inr (i, st')"
  shows "contacts st' = contacts st"
    and "filter (\<lambda>k. call_name k = n) (calls st') =
           [\<lparr>call_id = i, call_name = n, call_response = r, call_date = d, call_created_at = now\<rparr>]"
  using assms
  by (auto simp: database_add_call_def Let_def filter_empty_conv split: if_splits)

text \<open>
  Claim C1. A name \<open>n\<close> is among the contacts of a date \<open>D\<close> exactly when some
  contact row of that name is dated \<open>D\<close>, or some contact row of that name is dated
  before \<open>D\<close> and the name has no call at all, or its latest call has response DNP,
  or it has a call dated \<open>D\<close>. A name has a latest call exactly when it has a call
  at all, and the latest call is a call of that name that no other call of the name
  follows in (date, created_at). So a contact registered on day 1
  without calls is listed on day 2, and after a first call with a response other than
  DNP is added on day 2 it is not listed on day 3.
\<close>

theorem get_contacts_for_date_selection:
  "(n \<in> set (map row_name (get_contacts_for_date D st)) \<longleftrightarrow>
      (\<exists>c\<in>set (contacts st). contact_name c = n \<and> contact_date c = D) \<or>
      (\<exists>c\<in>set (contacts st). contact_name c = n \<and> contact_date c < D \<and>
         ((\<forall>k\<in>set (calls st). call_name k \<noteq> n) \<or>
          (\<exists>k. latest_call n st = Some k \<and> call_response k = ''DNP'') \<or>
          (\<exists>k\<in>set (calls st). call_name k = n \<and> call_date k = D)))) \<and>
   (\<forall>k. latest_call n st = Some k \<longrightarrow>
      k \<in> set (calls st) \<and> call_name k = n \<and>
      (\<forall>k'\<in>set (calls st). call_name k' = n \<longrightarrow>
         call_date k' < call_date k \<or>
         (call_date k' = call_date k \<and> call_created_at k' \<le> call_created_at k))) \<and>
   (latest_call n st = None \<longleftrightarrow> (\<forall>k\<in>set (calls st). call_name k \<noteq> n)) \<and>
   ((\<exists>c\<in>set (contacts st). contact_name c = n \<and> contact_date c = day1) \<and> day1 < day2 \<and>
    (\<forall>k\<in>set (calls st). call_name k \<noteq> n) \<longrightarrow>
      n \<in> set (map row_name (get_contacts_for_date day2 st))) \<and>
   ((\<forall>c\<in>set (contacts st). contact_name c = n \<longrightarrow> contact_date c = day1) \<and>
    day1 < day2 \<and> day2 < day3 \<and> (\<forall>k\<in>set (calls st). call_name k \<noteq> n) \<and>
    r \<noteq> ''DNP'' \<and> database_add_call n r day2 now st = Inr (i, st') \<longrightarrow>
      n \<notin> set (map row_name (get_contacts_for_date day3 st')))"
proof -
  have sel: "\<And>D st. n \<in> set (map row_name (get_contacts_for_date D st)) \<longleftrightarrow>
      (\<exists>c\<in>set (contacts st). contact_name c = n \<and> contact_date c = D) \<or>
      (\<exists>c\<in>set (contacts st). contact_name c = n \<and> contact_date c < D \<and>
         ((\<forall>k\<in>set (calls st). call_name k \<noteq> n) \<or>
          (\<exists>k. latest_call n st = Some k \<and> call_response k = ''DNP'') \<or>
          (\<exists>k\<in>set (calls st). call_name k = n \<and> call_date k = D)))"
    unfolding set_get_contacts_for_date_names by (auto simp: carried_to_iff)
  have latest: "\<forall>k. latest_call n st = Some k \<longrightarrow>
      k \<in> set (calls st) \<and> call_name k = n \<and>
      (\<forall>k'\<in>set (calls st). call_name k' = n \<longrightarrow>
         call_date k' < call_date k \<or>
         (call_date k' = call_date k \<and> call_created_at k' \<le> call_created_at k))"
    using latest_call_Some [of n st] by (simp add: call_before_def)
  have none: "latest_call n st = None \<longleftrightarrow> (\<forall>k\<in>set (calls st). call_name k \<noteq> n)"
    by (rule latest_call_None)
  have first: "(\<exists>c\<in>set (contacts st). contact_name c = n \<and> contact_date c = day1) \<and> day1 < day2 \<and>
    (\<forall>k\<in>set (calls st). call_name k \<noteq> n) \<longrightarrow>
      n \<in> set (map row_name (get_contacts_for_date day2 st))"
    unfolding sel by blast
  have second: "n \<notin> set (map row_name (get_contacts_for_date day3 st'))"
    if reg: "\<forall>c\<in>set (contacts st). contact_name c = n \<longrightarrow> contact_date c = day1"
      and days: "day1 < day2" "day2 < day3"
      and fresh: "\<forall>k\<in>set (calls st). call_name k \<noteq> n"
      and r: "r \<noteq> ''DNP''"
      and add: "database_add_call n r day2 now st = Inr (i, st')"
  proof -
    let ?new = "\<lparr>call_id = i, call_name = n, call_response = r, call_date = day2,
                 call_created_at = now\<rparr>"
    have cts: "contacts st' = contacts st"
      and only: "filter (\<lambda>k. call_name k = n) (calls st') = [?new]"
      using latest_call_after_first_add [OF fresh add] by simp_all
    have "latest_call n st' = Some ?new"
      by (simp add: latest_call_def only sort_by_def)
    moreover have "\<forall>k\<in>set (calls st'). call_name k = n \<longrightarrow> call_date k \<noteq> day3"
    proof (intro ballI impI)
      fix k assume "k \<in> set (calls st')" "call_name k = n"
      then have "k \<in> set (filter (\<lambda>k. call_name k = n) (calls st'))" by simp
      then have "k = ?new" unfolding only by simp
      then show "call_date k \<noteq> day3" using days by auto
    qed
    moreover have "\<exists>k\<in>set (calls st'). call_name k = n"
    proof -
      have "?new \<in> set (filter (\<lambda>k. call_name k = n) (calls st'))" unfolding only by simp
      then have "?new \<in> set (calls st') \<and> call_name ?new = n" by simp
      then show ?thesis by blast
    qed
    moreover have "\<forall>c\<in>set (contacts st'). contact_name c = n \<longrightarrow> contact_date c \<noteq> day3"
      using reg days cts by auto
    ultimately show ?thesis
      unfolding sel using r by auto
  qed
  show ?thesis using sel [of D st] latest none first second by blast
qed

theorem get_contacts_for_date_selection_witness:
  "''Bob'' \<in> set (map row_name (get_contacts_for_date ''2024-01-02'' day_one_example)) \<and>
   database_add_call ''Bob'' ''A'' ''2024-01-02'' ''2024-01-02 09:00:00'' day_one_example =
     Inr (1, day_two_example) \<and>
   ''Bob'' \<notin> set (map row_name (get_contacts_for_date ''2024-01-03'' day_two_example)) \<and>
   latest_call ''Bob'' day_two_example =
     Some \<lparr>call_id = 1, call_name = ''Bob'', call_response = ''A'',
           call_date = ''2024-01-02'', call_created_at = ''2024-01-02 09:00:00''\<rparr> \<and>
   latest_call ''Eve'' summary_example =
     Some \<lparr>call_id = 4, call_name = ''Eve'', call_response = ''DNP'',
           call_date = ''2024-01-02'', call_created_at = ''2024-01-02 09:50:00''\<rparr> \<and>
   ''Eve'' \<in> set (map row_name (get_contacts_for_date ''2024-01-04'' summary_example)) \<and>
   latest_call ''Dan'' summary_example =
     Some \<lparr>call_id = 3, call_name = ''Dan'', call_response = ''A'',
           call_date = ''2024-01-02'', call_created_at = ''2024-01-02 09:40:00''\<rparr> \<and>
   ''Dan'' \<notin> set (map row_name (get_contacts_for_date ''2024-01-04'' summary_example))"
proof -
  have first: "''Bob'' \<in> set (map row_name (get_contacts_for_date ''2024-01-02'' day_one_example)) \<and>
     database_add_call ''Bob'' ''A'' ''2024-01-02'' ''2024-01-02 09:00:00'' day_one_example =
       Inr (1, day_two_example) \<and>
     ''Bob'' \<notin> set (map row_name (get_contacts_for_date ''2024-01-03'' day_two_example)) \<and>
     latest_call ''Bob'' day_two_example =
       Some \<lparr>call_id = 1, call_name = ''Bob'', call_response = ''A'',
             call_date = ''2024-01-02'', call_created_at = ''2024-01-02 09:00:00''\<rparr>"
    using get_contacts_for_date_selection [of "''Bob''" "''2024-01-03''" day_two_example
        "''2024-01-01''" "''2024-01-02''" "''2024-01-03''" "''A''" "''2024-01-02 09:00:00''" 1
        day_two_example]
      get_contacts_for_date_selection [of "''Bob''" "''2024-01-02''" day_one_example
        "''2024-01-01''" "''2024-01-02''" "''2024-01-03''" "''A''" "''2024-01-02 09:00:00''" 1
        day_two_example]
    by (simp add: day_one_example_def day_two_example_def database_add_call_def
        check_response_def latest_call_def sort_by_def)
  have eve: "latest_call ''Eve'' summary_example =
     Some \<lparr>call_id = 4, call_name = ''Eve'', call_response = ''DNP'',
           call_date = ''2024-01-02'', call_created_at = ''2024-01-02 09:50:00''\<rparr>"
    by (simp add: summary_example_def latest_call_def sort_by_def call_before_def)
  have dan: "latest_call ''Dan'' summary_example =
     Some \<lparr>call_id = 3, call_name = ''Dan'', call_response = ''A'',
           call_date = ''2024-01-02'', call_created_at = ''2024-01-02 09:40:00''\<rparr>"
    by (simp add: summary_example_def latest_call_def sort_by_def call_before_def)
  have eve_row: "\<exists>c\<in>set (contacts summary_example).
      contact_name c = ''Eve'' \<and> contact_date c < ''2024-01-04''"
    by (simp add: summary_example_def)
  have eve_in: "''Eve'' \<in> set (map row_name (get_contacts_for_date ''2024-01-04'' summary_example))"
    using get_contacts_for_date_selection [of "''Eve''" "''2024-01-04''" summary_example,
        THEN conjunct1] eve eve_row
    by simp
  have dan_rows: "\<forall>c\<in>set (contacts summary_example).
      contact_name c = ''Dan'' \<longrightarrow> contact_date c < ''2024-01-04''"
    and dan_calls: "\<exists>k\<in>set (calls summary_example). call_name k = ''Dan''"
      "\<forall>k\<in>set (calls summary_example). call_name k = ''Dan'' \<longrightarrow> call_date k \<noteq> ''2024-01-04''"
    by (simp_all add: summary_example_def)
  have dan_out: "''Dan'' \<notin> set (map row_name (get_contacts_for_date ''2024-01-04'' summary_example))"
    using get_contacts_for_date_selection [of "''Dan''" "''2024-01-04''" summary_example,
        THEN conjunct1] dan dan_rows dan_calls
    by auto
  show ?thesis using first eve eve_in dan dan_out by simp
qed


subsection \<open>Rows and their order\<close>








section \<open>Summary of all contacts\<close>

lemma summary_row_before_total: "summary_row_before a b \<or> summary_row_before b a"
  by (auto simp: summary_row_before_def null_flag_def date_desc_less_def split: option.splits)

lemma summary_row_before_trans:
  "summary_row_before a b \<Longrightarrow> summary_row_before b c \<Longrightarrow> summary_row_before a c"
  unfolding summary_row_before_def null_flag_def date_desc_less_def
  by (cases "latest_response a"; cases "latest_response b"; cases "latest_response c";
      cases "last_called_date a"; cases "last_called_date b"; cases "last_called_date c")
    auto

lemma map_map_filter:
  "(\<And>x. x \<in> set xs \<Longrightarrow> \<exists>y. f x = Some y \<and> h y = g x) \<Longrightarrow>
   map h (List.map_filter f xs) = map g xs"
proof (induction xs)
  case Nil
  then show ?case by simp
next
  case (Cons a xs)
  obtain y where "f a = Some y" "h y = g a"
    using Cons.prems [of a] by auto
  moreover have "map h (List.map_filter f xs) = map g xs"
    using Cons.prems by (intro Cons.IH) simp
  ultimately show ?case by simp
qed

lemma set_map_filter_iff:
  "r \<in> set (List.map_filter f xs) \<longleftrightarrow> (\<exists>x\<in>set xs. f x = Some r)"
  by (induction xs) (auto split: option.splits)

lemma group_by_nonempty:
  "grp \<in> set (group_by key rows) \<Longrightarrow> snd grp \<noteq> []"
proof -
  assume a: "grp \<in> set (group_by key rows)"
  obtain n g where "grp = (n, g)" by (cases grp)
  then show ?thesis using a by (auto simp: group_by_member filter_empty_conv)
qed

lemma summary_group_row_Some:
  assumes "grp \<in> set (group_by contact_name (contacts st))"
  shows "\<exists>r. summary_group_row st grp = Some r \<and> sum_name r = fst grp"
proof -
  have "sort_by (\<lambda>c c'. contact_date c \<le> contact_date c') (snd grp) \<noteq> []"
    using group_by_nonempty [OF assms] by (metis mset_sort_by mset_zero_iff)
  then show ?thesis
    by (auto simp: summary_group_row_def split: list.splits)
qed

lemma summary_group_row_fields:
  assumes "summary_group_row st grp = Some r"
  shows "latest_response r = map_option call_response (latest_call (sum_name r) st)"
    and "last_called_date r = map_option call_date (latest_call (sum_name r) st)"
    and "dnp_count r = dnp_calls (sum_name r) st"
    and "display_response r =
           (case latest_response r of None \<Rightarrow> ''UN'' | Some x \<Rightarrow> x)"
  using assms by (auto simp: summary_group_row_def split: list.splits option.splits)

lemma summary_unfiltered:
  "get_all_contacts_summary None st =
   sort_by summary_row_before
     (List.map_filter (summary_group_row st) (group_by contact_name (contacts st)))"
  by (simp add: get_all_contacts_summary_def)

lemma summary_member:
  assumes "r \<in> set (get_all_contacts_summary None st)"
  shows "\<exists>grp. summary_group_row st grp = Some r"
  using assms by (auto simp: summary_unfiltered set_sort_by set_map_filter_iff)

lemma summary_names:
  "map sum_name (List.map_filter (summary_group_row st) (group_by contact_name (contacts st))) =
   map fst (group_by contact_name (contacts st))"
  by (rule map_map_filter) (rule summary_group_row_Some)


lemma latest_call_fields:
  "(map_option call_response (latest_call n st) = None \<longleftrightarrow>
      (\<forall>k\<in>set (calls st). call_name k \<noteq> n)) \<and>
   (\<forall>x. map_option call_response (latest_call n st) = Some x \<longrightarrow>
      (\<exists>k\<in>set (calls st). call_name k = n \<and> call_response k = x \<and>
         map_option call_date (latest_call n st) = Some (call_date k) \<and>
         (\<forall>k'\<in>set (calls st). call_name k' = n \<longrightarrow>
            call_date k' < call_date k \<or>
            (call_date k' = call_date k \<and> call_created_at k' \<le> call_created_at k))))"
proof (cases "latest_call n st")
  case None
  then show ?thesis using latest_call_None [of n st] by simp
next
  case (Some k)
  have "\<not> (\<forall>k\<in>set (calls st). call_name k \<noteq> n)"
    using latest_call_None [of n st] Some by simp
  then show ?thesis
    using latest_call_Some [OF Some] Some by (auto simp: call_before_def)
qed

text \<open>
  Claim C3. The unfiltered summary has exactly one row per distinct contact name. In each
  row \<open>latest_response\<close> is null exactly when the name has no call, and otherwise is
  the response of a call of that name with the greatest (date, created_at), whose date
  is \<open>last_called_date\<close>; \<open>dnp_count\<close> is the number of all DNP calls of the name.
  The rows are ordered with the un-attempted names last, the attempted ones by
  descending date of the latest call, ties by ascending name. With the filter
  \<open>["DNP"]\<close> the result is the rows whose latest response is DNP, unchanged, so each
  keeps its full \<open>dnp_count\<close>.
\<close>

theorem get_all_contacts_summary_rows:
  "distinct (map sum_name (get_all_contacts_summary None st)) \<and>
   set (map sum_name (get_all_contacts_summary None st)) = contact_name ` set (contacts st) \<and>
   (\<forall>r\<in>set (get_all_contacts_summary None st).
      (latest_response r = None \<longleftrightarrow> (\<forall>k\<in>set (calls st). call_name k \<noteq> sum_name r)) \<and>
      (\<forall>x. latest_response r = Some x \<longrightarrow>
         (\<exists>k\<in>set (calls st). call_name k = sum_name r \<and> call_response k = x \<and>
            last_called_date r = Some (call_date k) \<and>
            (\<forall>k'\<in>set (calls st). call_name k' = sum_name r \<longrightarrow>
               call_date k' < call_date k \<or>
               (call_date k' = call_date k \<and> call_created_at k' \<le> call_created_at k)))) \<and>
      dnp_count r =
        int (length (filter (\<lambda>k. call_name k = sum_name r \<and> call_response k = ''DNP'')
                       (calls st)))) \<and>
   sorted_wrt summary_listed_before (get_all_contacts_summary None st) \<and>
   get_all_contacts_summary (Some [''DNP'']) st =
     filter (\<lambda>r. latest_response r = Some ''DNP'') (get_all_contacts_summary None st)"
proof -
  let ?groups = "group_by contact_name (contacts st)"
  let ?rows = "List.map_filter (summary_group_row st) ?groups"
  have "distinct (map sum_name (sort_by summary_row_before ?rows)) = distinct (map sum_name ?rows)"
    by (rule distinct_map_sort_by)
  also have "map sum_name ?rows = map fst ?groups" by (rule summary_names)
  also have "distinct (map fst ?groups)" by (rule group_by_distinct)
  finally have one: "distinct (map sum_name (get_all_contacts_summary None st))"
    by (simp add: summary_unfiltered)
  have "set (map sum_name (get_all_contacts_summary None st)) = set (map sum_name ?rows)"
    by (simp add: summary_unfiltered set_sort_by)
  also have "\<dots> = set (map fst ?groups)" by (simp only: summary_names)
  also have "\<dots> = contact_name ` set (contacts st)" by (rule group_by_set_keys)
  finally have names: "set (map sum_name (get_all_contacts_summary None st)) =
      contact_name ` set (contacts st)" .
  have fields: "\<forall>r\<in>set (get_all_contacts_summary None st).
      (latest_response r = None \<longleftrightarrow> (\<forall>k\<in>set (calls st). call_name k \<noteq> sum_name r)) \<and>
      (\<forall>x. latest_response r = Some x \<longrightarrow>
         (\<exists>k\<in>set (calls st). call_name k = sum_name r \<and> call_response k = x \<and>
            last_called_date r = Some (call_date k) \<and>
            (\<forall>k'\<in>set (calls st). call_name k' = sum_name r \<longrightarrow>
               call_date k' < call_date k \<or>
               (call_date k' = call_date k \<and> call_created_at k' \<le> call_created_at k)))) \<and>
      dnp_count r =
        int (length (filter (\<lambda>k. call_name k = sum_name r \<and> call_response k = ''DNP'')
                       (calls st)))"
  proof
    fix r assume "r \<in> set (get_all_contacts_summary None st)"
    then obtain grp where grp: "summary_group_row st grp = Some r"
      using summary_member by blast
    show "(latest_response r = None \<longleftrightarrow> (\<forall>k\<in>set (calls st). call_name k \<noteq> sum_name r)) \<and>
      (\<forall>x. latest_response r = Some x \<longrightarrow>
         (\<exists>k\<in>set (calls st). call_name k = sum_name r \<and> call_response k = x \<and>
            last_called_date r = Some (call_date k) \<and>
            (\<forall>k'\<in>set (calls st). call_name k' = sum_name r \<longrightarrow>
               call_date k' < call_date k \<or>
               (call_date k' = call_date k \<and> call_created_at k' \<le> call_created_at k)))) \<and>
      dnp_count r =
        int (length (filter (\<lambda>k. call_name k = sum_name r \<and> call_response k = ''DNP'')
                       (calls st)))"
      unfolding summary_group_row_fields(1,2,3) [OF grp]
      using latest_call_fields [of "sum_name r" st]
      by (simp add: dnp_calls_def conj_commute)
  qed
  have "sorted_wrt summary_row_before (get_all_contacts_summary None st)"
    unfolding summary_unfiltered
    using summary_row_before_total summary_row_before_trans by (rule sorted_sort_by)
  then have order: "sorted_wrt summary_listed_before (get_all_contacts_summary None st)"
  proof (rule sorted_wrt_mono_rel [rotated])
    fix r r'
    assume r: "r \<in> set (get_all_contacts_summary None st)"
      and r': "r' \<in> set (get_all_contacts_summary None st)"
      and before: "summary_row_before r r'"
    obtain grp grp' where "summary_group_row st grp = Some r" "summary_group_row st grp' = Some r'"
      using summary_member r r' by blast
    then have "latest_response r = None \<longleftrightarrow> last_called_date r = None"
      "latest_response r' = None \<longleftrightarrow> last_called_date r' = None"
      by (simp_all add: summary_group_row_fields)
    then show "summary_listed_before r r'"
      using before
      by (auto simp: summary_row_before_def summary_listed_before_def null_flag_def
          date_desc_less_def split: option.splits)
  qed
  have "\<forall>r\<in>set (get_all_contacts_summary None st).
      display_response r = ''DNP'' \<longleftrightarrow> latest_response r = Some ''DNP''"
  proof
    fix r assume "r \<in> set (get_all_contacts_summary None st)"
    then obtain grp where grp: "summary_group_row st grp = Some r"
      using summary_member by blast
    show "display_response r = ''DNP'' \<longleftrightarrow> latest_response r = Some ''DNP''"
      unfolding summary_group_row_fields(4) [OF grp] by (simp split: option.splits)
  qed
  then have dnp: "get_all_contacts_summary (Some [''DNP'']) st =
     filter (\<lambda>r. latest_response r = Some ''DNP'') (get_all_contacts_summary None st)"
    by (auto simp: get_all_contacts_summary_def intro: filter_cong)
  show ?thesis using one names fields order dnp by blast
qed

theorem get_all_contacts_summary_rows_witness:
  "map (\<lambda>r. (sum_name r, latest_response r, last_called_date r, dnp_count r))
     (get_all_contacts_summary None summary_example) =
     [(''Ann'', Some ''B'', Some ''2024-01-02'', 0),
      (''Dan'', Some ''A'', Some ''2024-01-02'', 1),
      (''Eve'', Some ''DNP'', Some ''2024-01-02'', 2),
      (''Bob'', None, None, 0),
      (''Zed'', None, None, 0)] \<and>
   map (\<lambda>r. (sum_name r, dnp_count r)) (get_all_contacts_summary (Some [''DNP'']) summary_example) =
     [(''Eve'', 2)]"
  using get_all_contacts_summary_rows [of summary_example]
  by (simp add: get_all_contacts_summary_def summary_example_def group_by_def sort_by_def
      summary_group_row_def latest_call_def call_before_def summary_row_before_def
      null_flag_def date_desc_less_def dnp_calls_def)


section \<open>Achievements of a month\<close>



section \<open>The request handlers\<close>

subsection \<open>What the store functions do to the calls table\<close>

lemma database_add_contact_calls:
  "database_add_contact name d skip now st = Inr (i, st') \<Longrightarrow> calls st' = calls st"
  by (auto simp: database_add_contact_def Let_def split: if_splits)

lemma add_names_calls:
  "calls (case_sum id fst (add_names today now names (st, added, skipped))) = calls st"
proof (induction names arbitrary: st added skipped)
  case Nil
  then show ?case by simp
next
  case (Cons item names)
  show ?case
  proof (cases item)
    case JOther
    then show ?thesis by simp
  next
    case (JString raw)
    show ?thesis
    proof (cases "strip raw = []")
      case True
      then show ?thesis using JString Cons.IH by simp
    next
      case False
      show ?thesis
      proof (cases "database_add_contact (strip raw) today True now st")
        case (Inl e)
        then show ?thesis using JString False Cons.IH by simp
      next
        case (Inr p)
        obtain new_id st1 where p: "p = (new_id, st1)" by (cases p)
        have c: "calls st1 = calls st"
          using Inr p database_add_contact_calls by simp
        have "calls (case_sum id fst
                (add_names today now names (st1, added @ [strip raw], skipped))) = calls st1"
          by (rule Cons.IH)
        then show ?thesis using JString False Inr p c by simp
      qed
    qed
  qed
qed

lemma database_add_call_calls:
  "database_add_call name response d now st = Inr (i, st') \<Longrightarrow>
   k \<in> set (calls st') \<Longrightarrow> k \<in> set (calls st) \<or> call_response k = response"
  by (auto simp: database_add_call_def Let_def split: if_splits)

lemma database_update_call_calls:
  "database_update_call cid response st = Inr (u, st') \<Longrightarrow>
   k \<in> set (calls st') \<Longrightarrow> k \<in> set (calls st) \<or> call_response k = response"
  by (auto simp: database_update_call_def split: if_splits)

subsection \<open>The branches of the handlers\<close>

lemma add_call_rejects:
  "strip (json_get name '''') = [] \<or>
   upper (json_get response '''') \<notin> {''A'', ''B'', ''C'', ''NA'', ''DNP''} \<Longrightarrow>
   fst (add_call name response date today now st) = st \<and>
   status (snd (add_call name response date today now st)) = 400 \<and>
   (\<exists>msg. body (snd (add_call name response date today now st)) = ErrorBody msg)"
  by (auto simp: add_call_def Let_def json_error_def)

lemma add_call_accepts:
  assumes "strip (json_get name '''') \<noteq> []"
    and "upper (json_get response '''') \<in> {''A'', ''B'', ''C'', ''NA'', ''DNP''}"
  shows "\<exists>new_id st1.
     database_add_call (strip (json_get name '''')) (upper (json_get response ''''))
       (json_get date today) now st = Inr (new_id, st1) \<and>
     add_call name response date today now st =
       (st1, jsonify (AddCallOk new_id (strip (json_get name ''''))
                (get_today_stats (json_get date today) st1)
                (get_encouraging_message (upper (json_get response ''''))
                   (dict_get (get_today_stats (json_get date today) st1) ''successful'')
                   (case get_daily_target (json_get date today) st1 of None \<Rightarrow> 0 | Some t \<Rightarrow> t))))"
proof -
  have chk: "check_response (upper (json_get response ''''))"
    using assms(2) by (auto simp: check_response_def)
  then obtain new_id st1 where add:
    "database_add_call (strip (json_get name '''')) (upper (json_get response ''''))
       (json_get date today) now st = Inr (new_id, st1)"
    by (simp add: database_add_call_def Let_def)
  have "upper (json_get response '''') \<in> set [''A'', ''B'', ''C'', ''NA'', ''DNP'']"
    using assms(2) by simp
  then show ?thesis
    using assms(1) add by (simp add: add_call_def Let_def del: set_simps)
qed

lemma update_call_rejects:
  "falsy_id cid \<or> upper (json_get response '''') \<notin> {''A'', ''B'', ''C'', ''NA'', ''DNP''} \<Longrightarrow>
   fst (update_call cid response date today st) = st \<and>
   status (snd (update_call cid response date today st)) = 400 \<and>
   (\<exists>msg. body (snd (update_call cid response date today st)) = ErrorBody msg)"
  by (auto simp: update_call_def Let_def json_error_def)

lemma update_call_overflow:
  assumes "\<not> falsy_id cid"
    and "upper (json_get response '''') \<in> {''A'', ''B'', ''C'', ''NA'', ''DNP''}"
    and "\<not> in_int64 (json_get cid 0)"
  shows "update_call cid response date today st = (st, uncaught)"
proof -
  have "upper (json_get response '''') \<in> set [''A'', ''B'', ''C'', ''NA'', ''DNP'']"
    using assms(2) by simp
  then show ?thesis
    using assms(1,3) by (simp add: update_call_def database_update_call_def Let_def del: set_simps)
qed

lemma update_call_accepts:
  assumes "\<not> falsy_id cid"
    and "upper (json_get response '''') \<in> {''A'', ''B'', ''C'', ''NA'', ''DNP''}"
    and "in_int64 (json_get cid 0)"
  shows "\<exists>updated st1.
     database_update_call (json_get cid 0) (upper (json_get response '''')) st = Inr (updated, st1) \<and>
     fst (update_call cid response date today st) = st1 \<and>
     (\<not> updated \<longrightarrow> snd (update_call cid response date today st) = json_error ''Call not found'' 404)"
proof -
  have chk: "check_response (upper (json_get response ''''))"
    using assms(2) by (auto simp: check_response_def)
  then obtain updated st1 where upd:
    "database_update_call (json_get cid 0) (upper (json_get response '''')) st = Inr (updated, st1)"
    using assms(3) by (simp add: database_update_call_def)
  have "upper (json_get response '''') \<in> set [''A'', ''B'', ''C'', ''NA'', ''DNP'']"
    using assms(2) by simp
  then show ?thesis
    using assms(1) upd by (simp add: update_call_def Let_def del: set_simps)
qed

subsection \<open>What a request does to the calls table\<close>

lemma add_call_calls:
  assumes "k \<in> set (calls (fst (add_call name response date today now st)))"
  shows "k \<in> set (calls st) \<or> call_response k \<in> {''A'', ''B'', ''C'', ''NA'', ''DNP''}"
proof (cases "strip (json_get name '''') = [] \<or>
              upper (json_get response '''') \<notin> {''A'', ''B'', ''C'', ''NA'', ''DNP''}")
  case True
  then have "fst (add_call name response date today now st) = st"
    using add_call_rejects by blast
  then show ?thesis using assms by simp
next
  case False
  then obtain new_id st1 where
    add: "database_add_call (strip (json_get name '''')) (upper (json_get response ''''))
            (json_get date today) now st = Inr (new_id, st1)"
    and res: "fst (add_call name response date today now st) = st1"
    using add_call_accepts [where name = name and response = response and date = date
        and today = today and now = now and st = st] by auto
  have "k \<in> set (calls st) \<or> call_response k = upper (json_get response '''')"
    using database_add_call_calls [OF add] assms res by simp
  then show ?thesis using False by auto
qed

lemma update_call_calls:
  assumes "k \<in> set (calls (fst (update_call cid response date today st)))"
  shows "k \<in> set (calls st) \<or> call_response k \<in> {''A'', ''B'', ''C'', ''NA'', ''DNP''}"
proof (cases "falsy_id cid \<or>
              upper (json_get response '''') \<notin> {''A'', ''B'', ''C'', ''NA'', ''DNP''}")
  case True
  then have "fst (update_call cid response date today st) = st"
    using update_call_rejects by blast
  then show ?thesis using assms by simp
next
  case False
  show ?thesis
  proof (cases "in_int64 (json_get cid 0)")
    case out: False
    have "fst (update_call cid response date today st) = st"
      using update_call_overflow [of cid response date today st] False out by simp
    then show ?thesis using assms by simp
  next
    case True
    then obtain updated st1 where
      upd: "database_update_call (json_get cid 0) (upper (json_get response '''')) st =
              Inr (updated, st1)"
      and res: "fst (update_call cid response date today st) = st1"
      using False update_call_accepts [where cid = cid and response = response and date = date
          and today = today and st = st] by auto
    have "k \<in> set (calls st) \<or> call_response k = upper (json_get response '''')"
      using database_update_call_calls [OF upd] assms res by simp
    then show ?thesis using False by auto
  qed
qed

lemma delete_call_calls:
  "set (calls (fst (delete_call cid date today st))) \<subseteq> set (calls st)"
  by (auto simp: delete_call_def database_delete_call_def Let_def)

lemma set_target_calls: "calls (fst (set_target t date today st)) = calls st"
  by (simp add: set_target_def set_daily_target_def Let_def)

lemma add_contact_calls: "calls (fst (add_contact name date today now st)) = calls st"
proof (cases "strip (json_get name '''') = []")
  case True
  then show ?thesis by (simp add: add_contact_def Let_def)
next
  case False
  show ?thesis
  proof (cases "database_add_contact (strip (json_get name '''')) (json_get date today) False now st")
    case (Inl e)
    then show ?thesis using False by (cases e) (simp_all add: add_contact_def Let_def)
  next
    case (Inr p)
    obtain i st1 where p: "p = (i, st1)" by (cases p)
    then show ?thesis
      using False Inr database_add_contact_calls [of _ _ False now st i st1]
      by (simp add: add_contact_def Let_def)
  qed
qed

lemma delete_contact_calls: "calls (fst (delete_contact cid st)) = calls st"
  by (simp add: delete_contact_def database_delete_contact_def)

lemma add_to_today_calls: "calls (fst (add_to_today name today now st)) = calls st"
proof (cases "strip (json_get name '''') = []")
  case True
  then show ?thesis by (simp add: add_to_today_def Let_def)
next
  case False
  show ?thesis
  proof (cases "database_add_contact (strip (json_get name '''')) today True now st")
    case (Inl e)
    then show ?thesis using False by (cases e) (simp_all add: add_to_today_def Let_def)
  next
    case (Inr p)
    obtain i st1 where p: "p = (i, st1)" by (cases p)
    then show ?thesis
      using False Inr database_add_contact_calls [of _ _ True now st i st1]
      by (simp add: add_to_today_def Let_def)
  qed
qed

lemma add_multiple_to_today_calls:
  "calls (fst (add_multiple_to_today names today now st)) = calls st"
proof (cases "json_get names [] = []")
  case True
  then show ?thesis by (simp add: add_multiple_to_today_def Let_def)
next
  case False
  have loop: "calls (case_sum id fst (add_names today now (json_get names []) (st, [], []))) =
              calls st"
    by (rule add_names_calls)
  show ?thesis
  proof (cases "add_names today now (json_get names []) (st, [], [])")
    case (Inl st1)
    then show ?thesis using False loop by (simp add: add_multiple_to_today_def Let_def)
  next
    case (Inr r)
    obtain st1 added skipped where "r = (st1, added, skipped)" by (cases r)
    then show ?thesis using False loop Inr by (simp add: add_multiple_to_today_def Let_def)
  qed
qed

lemma handle_calls:
  assumes "k \<in> set (calls (fst (handle req today now st)))"
  shows "k \<in> set (calls st) \<or> call_response k \<in> {''A'', ''B'', ''C'', ''NA'', ''DNP''}"
proof (cases req)
  case (SetTarget t d)
  then show ?thesis using assms by (simp add: set_target_calls)
next
  case (AddCall n r d)
  then show ?thesis using assms add_call_calls by simp
next
  case (DeleteCall c d)
  then show ?thesis using assms delete_call_calls [of c d today st] by auto
next
  case (UpdateCall c r d)
  then show ?thesis using assms update_call_calls by simp
next
  case (AddContact n d)
  then show ?thesis using assms by (simp add: add_contact_calls)
next
  case (DeleteContact c)
  then show ?thesis using assms by (simp add: delete_contact_calls)
next
  case (AddToToday n)
  then show ?thesis using assms by (simp add: add_to_today_calls)
next
  case (AddMultipleToToday ns)
  then show ?thesis using assms by (simp add: add_multiple_to_today_calls)
qed

lemma reachable_calls:
  "reachable st \<Longrightarrow> k \<in> set (calls st) \<Longrightarrow>
   call_response k \<in> {''A'', ''B'', ''C'', ''NA'', ''DNP''}"
proof (induction arbitrary: k rule: reachable.induct)
  case initial
  then show ?case by (simp add: init_db_def)
next
  case (step st req today now)
  have "k \<in> set (calls st) \<or> call_response k \<in> {''A'', ''B'', ''C'', ''NA'', ''DNP''}"
    using step.prems by (rule handle_calls)
  then show ?case using step.IH by blast
qed

text \<open>
  Claim C9. Whatever the store and the request, every call row of the store after the
  request either was there before or carries one of the responses A, B, C, NA, DNP; so
  the rows with response CATCHUP never become more. \<open>add_call\<close> and \<open>update_call\<close>
  answer any other response token with status 400 and an error body and leave the store
  as it was. In a store reached from the empty one by requests, no call has a response
  outside the five.
\<close>

theorem handlers_write_valid_outcomes:
  "(\<forall>k\<in>set (calls (fst (handle req today now st))).
      k \<in> set (calls st) \<or> call_response k \<in> {''A'', ''B'', ''C'', ''NA'', ''DNP''}) \<and>
   {k \<in> set (calls (fst (handle req today now st))). call_response k = ''CATCHUP''} \<subseteq>
     {k \<in> set (calls st). call_response k = ''CATCHUP''} \<and>
   (upper (json_get response '''') \<notin> {''A'', ''B'', ''C'', ''NA'', ''DNP''} \<longrightarrow>
      fst (add_call name response date today now st) = st \<and>
      status (snd (add_call name response date today now st)) = 400 \<and>
      (\<exists>msg. body (snd (add_call name response date today now st)) = ErrorBody msg)) \<and>
   (upper (json_get response '''') \<notin> {''A'', ''B'', ''C'', ''NA'', ''DNP''} \<longrightarrow>
      fst (update_call cid response date today st) = st \<and>
      status (snd (update_call cid response date today st)) = 400 \<and>
      (\<exists>msg. body (snd (update_call cid response date today st)) = ErrorBody msg)) \<and>
   (reachable st \<longrightarrow>
      (\<forall>k\<in>set (calls st). call_response k \<in> {''A'', ''B'', ''C'', ''NA'', ''DNP''}))"
proof -
  have new: "\<forall>k\<in>set (calls (fst (handle req today now st))).
      k \<in> set (calls st) \<or> call_response k \<in> {''A'', ''B'', ''C'', ''NA'', ''DNP''}"
    using handle_calls by blast
  then have legacy:
    "{k \<in> set (calls (fst (handle req today now st))). call_response k = ''CATCHUP''} \<subseteq>
     {k \<in> set (calls st). call_response k = ''CATCHUP''}"
    by auto
  have add: "upper (json_get response '''') \<notin> {''A'', ''B'', ''C'', ''NA'', ''DNP''} \<longrightarrow>
      fst (add_call name response date today now st) = st \<and>
      status (snd (add_call name response date today now st)) = 400 \<and>
      (\<exists>msg. body (snd (add_call name response date today now st)) = ErrorBody msg)"
    using add_call_rejects by blast
  have upd: "upper (json_get response '''') \<notin> {''A'', ''B'', ''C'', ''NA'', ''DNP''} \<longrightarrow>
      fst (update_call cid response date today st) = st \<and>
      status (snd (update_call cid response date today st)) = 400 \<and>
      (\<exists>msg. body (snd (update_call cid response date today st)) = ErrorBody msg)"
    using update_call_rejects by blast
  have reach: "reachable st \<longrightarrow>
      (\<forall>k\<in>set (calls st). call_response k \<in> {''A'', ''B'', ''C'', ''NA'', ''DNP''})"
    using reachable_calls by blast
  show ?thesis using new legacy add upd reach by blast
qed

theorem handlers_write_valid_outcomes_witness:
  "add_call (Some ''Zed'') (Some ''CatchUp'') None ''2024-01-03'' ''2024-01-03 12:00:00''
     stats_example = (stats_example, json_error ''Invalid response type'' 400) \<and>
   update_call (Some 1) (Some ''catchup'') None ''2024-01-03'' stats_example =
     (stats_example, json_error ''Invalid response type'' 400) \<and>
   map call_response
     (calls (fst (handle (AddCall (Some ''Zed'') (Some ''dnp'') None) ''2024-01-03''
                    ''2024-01-03 12:00:00'' stats_example))) =
     [''A'', ''DNP'', ''A'', ''CATCHUP'', ''DNP''] \<and>
   reachable init_db \<and> calls init_db = []"
  using handlers_write_valid_outcomes [of "AddCall (Some ''Zed'') (Some ''dnp'') None"
      "''2024-01-03''" "''2024-01-03 12:00:00''" stats_example "Some ''CatchUp''" "Some ''Zed''"
      None "Some 1"]
    handlers_write_valid_outcomes [of "AddCall (Some ''Zed'') (Some ''dnp'') None"
      "''2024-01-03''" "''2024-01-03 12:00:00''" init_db "Some ''catchup''" "Some ''Zed''"
      None "Some 1"]
    reachable.initial
  by (simp add: add_call_def update_call_def Let_def json_get_def upper_def upper_char_def
      strip_def drop_leading.simps match_len_def whitespace_def falsy_id_def database_add_call_def check_response_def
      stats_example_def init_db_def)

subsection \<open>Adding a call on a date without target\<close>

lemma database_add_call_result:
  assumes "database_add_call name response d now st = Inr (i, st')"
  shows "calls st' = calls st @ [\<lparr>call_id = i, call_name = name, call_response = response,
                                   call_date = d, call_created_at = now\<rparr>]"
    and "daily_targets st' = daily_targets st"
    and "contacts st' = contacts st"
    and "check_response response"
  using assms by (auto simp: database_add_call_def Let_def split: if_splits)

lemma achieved_message:
  assumes "response \<in> {''A'', ''B'', ''C''}" "1 \<le> successful"
  shows "get_encouraging_message response successful 0 =
           \<lparr>msg_text = ''Target achieved! Keep the momentum going!'',
            msg_type = ''success'',
            msg_emoji = emoji_party @ emoji_trophy\<rparr>"
  using assms by (auto simp: get_encouraging_message_def Let_def)

text \<open>
  Claim C10. When \<open>add_call\<close> is asked to log a call with a response among A, B, C (in
  any letter case) and a non-blank name on a date that has no row in \<open>daily_targets\<close>,
  in a store whose calls satisfy the \<open>CHECK\<close> constraint, it answers with status 200
  and builds the message from the target 0; the successful count of the date, which
  includes the call just added, is at least 1, so the message is the one with the text
  "Target achieved! Keep the momentum going!", never the Rampage or the progress
  message.
\<close>

theorem add_call_without_target:
  assumes "calls_checked st"
    and "get_daily_target (json_get date today) st = None"
    and "strip (json_get name '''') \<noteq> []"
    and "upper (json_get response '''') \<in> {''A'', ''B'', ''C''}"
  shows "\<exists>new_id st' stats.
     add_call name response date today now st =
       (st', jsonify (AddCallOk new_id (strip (json_get name '''')) stats
                (get_encouraging_message (upper (json_get response ''''))
                   (dict_get stats ''successful'') 0))) \<and>
     1 \<le> dict_get stats ''successful'' \<and>
     get_encouraging_message (upper (json_get response '''')) (dict_get stats ''successful'') 0 =
       \<lparr>msg_text = ''Target achieved! Keep the momentum going!'',
        msg_type = ''success'',
        msg_emoji = emoji_party @ emoji_trophy\<rparr>"
proof -
  let ?r = "upper (json_get response '''')"
  let ?d = "json_get date today"
  let ?n = "strip (json_get name '''')"
  have five: "?r \<in> {''A'', ''B'', ''C'', ''NA'', ''DNP''}" using assms(4) by auto
  obtain new_id st1 where add: "database_add_call ?n ?r ?d now st = Inr (new_id, st1)"
    and res: "add_call name response date today now st =
       (st1, jsonify (AddCallOk new_id ?n (get_today_stats ?d st1)
                (get_encouraging_message ?r (dict_get (get_today_stats ?d st1) ''successful'')
                   (case get_daily_target ?d st1 of None \<Rightarrow> 0 | Some t \<Rightarrow> t))))"
    using add_call_accepts [OF assms(3) five] by blast
  let ?new = "\<lparr>call_id = new_id, call_name = ?n, call_response = ?r,
               call_date = ?d, call_created_at = now\<rparr>"
  have cs: "calls st1 = calls st @ [?new]" and chk: "check_response ?r"
    and tg: "daily_targets st1 = daily_targets st"
    using database_add_call_result [OF add] by simp_all
  have target: "get_daily_target ?d st1 = None"
    using assms(2) tg by (simp add: get_daily_target_def)
  have checked: "calls_checked st1"
    using assms(1) chk cs by (simp add: calls_checked_def)
  have "dict_get (get_today_stats ?d st1) ''successful'' =
        int (length (filter (\<lambda>k. call_date k = ?d \<and> call_response k \<in> {''A'', ''B'', ''C''})
                       (calls st1)))"
    using checked by (rule stats_successful)
  also have "\<dots> = int (length (filter (\<lambda>k. call_date k = ?d \<and>
                                          call_response k \<in> {''A'', ''B'', ''C''}) (calls st))) + 1"
    using assms(4) by (simp add: cs)
  finally have succ: "1 \<le> dict_get (get_today_stats ?d st1) ''successful''" by simp
  have msg: "get_encouraging_message ?r (dict_get (get_today_stats ?d st1) ''successful'') 0 =
       \<lparr>msg_text = ''Target achieved! Keep the momentum going!'',
        msg_type = ''success'',
        msg_emoji = emoji_party @ emoji_trophy\<rparr>"
    using assms(4) succ by (rule achieved_message)
  have "add_call name response date today now st =
       (st1, jsonify (AddCallOk new_id ?n (get_today_stats ?d st1)
                (get_encouraging_message ?r (dict_get (get_today_stats ?d st1) ''successful'')
                   0)))"
    using res target by simp
  then show ?thesis using succ msg by blast
qed

theorem add_call_without_target_witness:
  "calls_checked stats_example \<and>
   get_daily_target ''2024-01-02'' stats_example = None \<and>
   snd (add_call (Some '' Bob '') (Some ''a'') (Some ''2024-01-02'') ''2024-01-05''
          ''2024-01-05 12:00:00'' stats_example) =
     jsonify (AddCallOk 5 ''Bob''
       [(''A'', 3), (''B'', 0), (''C'', 0), (''NA'', 0), (''DNP'', 1), (''CATCHUP'', 0),
        (''total'', 4), (''successful'', 3)]
       \<lparr>msg_text = ''Target achieved! Keep the momentum going!'',
        msg_type = ''success'',
        msg_emoji = emoji_party @ emoji_trophy\<rparr>)"
  using add_call_without_target [of stats_example "Some ''2024-01-02''" "''2024-01-05''"
      "Some '' Bob ''" "Some ''a''" "''2024-01-05 12:00:00''"]
  by (simp add: calls_checked_def stats_example_def check_response_def get_daily_target_def
      json_get_def strip_def drop_leading.simps match_len_def whitespace_def upper_def upper_char_def add_call_def Let_def
      database_add_call_def get_today_stats_def response_counts_def group_by_def
      stats_step_def initial_stats_def dict_get_def get_encouraging_message_def)


section \<open>Adding a contact\<close>

lemma contact_exists_for_date_iff:
  "contact_exists_for_date name d st \<longleftrightarrow>
   (\<exists>c\<in>set (contacts st). contact_name c = name \<and> contact_date c = d)"
  by (simp add: contact_exists_for_date_def list_ex_iff)

lemma contact_exists_anywhere_iff:
  "contact_exists_anywhere name st \<longleftrightarrow>
   (\<exists>c\<in>set (contacts st). LOWER (contact_name c) = LOWER name)"
  by (simp add: contact_exists_anywhere_def list_ex_iff)

text \<open>
  What \<open>database_add_contact\<close> does: the per-date check compares the name as it is,
  the global check compares it under \<open>LOWER\<close>.
\<close>

lemma database_add_contact_cases:
  "(contact_exists_for_date name d st \<longrightarrow>
      (\<exists>msg. database_add_contact name d skip now st = Inl (ValueError msg))) \<and>
   (\<not> skip \<and> contact_exists_anywhere name st \<longrightarrow>
      (\<exists>msg. database_add_contact name d skip now st = Inl (ValueError msg))) \<and>
   (\<not> contact_exists_for_date name d st \<and> (skip \<or> \<not> contact_exists_anywhere name st) \<longrightarrow>
      database_add_contact name d skip now st =
        Inr (contacts_seq st + 1,
             st\<lparr>contacts := contacts st @
                   [\<lparr>contact_id = contacts_seq st + 1, contact_name = name, contact_date = d,
                     contact_created_at = now\<rparr>],
                contacts_seq := contacts_seq st + 1\<rparr>))"
  by (auto simp: database_add_contact_def contact_exists_for_date_def Let_def)

text \<open>
  Claim C2, at an input where the code departs from it. On a store that lists
  \<open>Bob\<close> for 2024-01-01, adding \<open>bob\<close> for the same date with the global check
  skipped finds no duplicate, although the two names are equal under \<open>LOWER\<close>: a
  second row is inserted and its id returned.
\<close>

theorem database_add_contact_case_variant:
  "contact_exists_for_date ''Bob'' ''2024-01-01'' day_one_example \<and>
   LOWER ''bob'' = LOWER ''Bob'' \<and>
   contact_exists_anywhere ''bob'' day_one_example \<and>
   database_add_contact ''bob'' ''2024-01-01'' True ''2024-01-01 10:00:00'' day_one_example =
     Inr (2, day_one_example
               \<lparr>contacts :=
                  [\<lparr>contact_id = 1, contact_name = ''Bob'', contact_date = ''2024-01-01'',
                    contact_created_at = ''2024-01-01 08:00:00''\<rparr>,
                   \<lparr>contact_id = 2, contact_name = ''bob'', contact_date = ''2024-01-01'',
                    contact_created_at = ''2024-01-01 10:00:00''\<rparr>],
                contacts_seq := 2\<rparr>)"
  by (simp add: database_add_contact_def contact_exists_for_date_def
      contact_exists_anywhere_def day_one_example_def LOWER_def lower_char_def Let_def)


section \<open>How the handlers report errors\<close>












lemma json_error_is_error:
  "400 \<le> code \<Longrightarrow> code < 500 \<Longrightarrow> is_error_response (json_error msg code)"
  by (simp add: is_error_response_def json_error_def)

lemma jsonify_is_no_error: "\<not> is_error_response (jsonify b)"
  by (simp add: is_error_response_def jsonify_def)

subsection \<open>Exceptions that no handler catches\<close>

text \<open>
  An id or a target outside the 64-bit range makes the binding raise, and an element
  of \<open>names\<close> that is not a string makes \<open>strip\<close> raise; the handlers catch neither,
  and the reply is the framework's status 500. In the batch the contacts inserted
  before the offending element stay in the store.
\<close>

lemma uncaught_overflow:
  "\<not> falsy_id cid \<Longrightarrow> \<not> in_int64 (json_get cid 0) \<Longrightarrow>
   delete_call cid date today st = (st, uncaught)"
  "\<not> falsy_id cid \<Longrightarrow> \<not> in_int64 (json_get cid 0) \<Longrightarrow>
   delete_contact cid st = (st, uncaught)"
  "1 \<le> json_get target 0 \<Longrightarrow> \<not> in_int64 (json_get target 0) \<Longrightarrow>
   set_target target date today st = (st, uncaught)"
  by (simp_all add: delete_call_def delete_contact_def set_target_def Let_def
      database_delete_call_def database_delete_contact_def set_daily_target_def)

lemma uncaught_attribute_error:
  "add_multiple_to_today (Some [JString ''Eve'', JOther, JString ''Ann'']) ''2024-01-01''
     ''2024-01-01 10:00:00'' day_one_example =
     (day_one_example
        \<lparr>contacts :=
           [\<lparr>contact_id = 1, contact_name = ''Bob'', contact_date = ''2024-01-01'',
             contact_created_at = ''2024-01-01 08:00:00''\<rparr>,
            \<lparr>contact_id = 2, contact_name = ''Eve'', contact_date = ''2024-01-01'',
             contact_created_at = ''2024-01-01 10:00:00''\<rparr>],
         contacts_seq := 2\<rparr>,
      uncaught)"
  by (simp add: add_multiple_to_today_def json_get_def Let_def strip_def drop_leading.simps
      match_len_def whitespace_def database_add_contact_def contact_exists_for_date_def
      day_one_example_def)

subsection \<open>The batch loop\<close>









section \<open>The \<open>CHECK\<close> constraint along requests\<close>

text \<open>
  The hypothesis \<open>calls_checked\<close> of the statements about statistics holds in the
  empty store, is kept by every request, and so holds in every reachable store.
\<close>

lemma five_checked:
  "r \<in> {''A'', ''B'', ''C'', ''NA'', ''DNP''} \<Longrightarrow> check_response r"
  by (auto simp: check_response_def)

lemma handle_calls_checked:
  assumes "calls_checked st"
  shows "calls_checked (fst (handle req today now st))"
  unfolding calls_checked_def list_all_iff
proof
  fix k assume "k \<in> set (calls (fst (handle req today now st)))"
  then have "k \<in> set (calls st) \<or> call_response k \<in> {''A'', ''B'', ''C'', ''NA'', ''DNP''}"
    by (rule handle_calls)
  then show "check_response (call_response k)"
    using assms five_checked by (auto simp: calls_checked_def list_all_iff)
qed

lemma reachable_calls_checked: "reachable st \<Longrightarrow> calls_checked st"
proof (induction rule: reachable.induct)
  case initial
  then show ?case by (simp add: calls_checked_def init_db_def)
next
  case (step st req today now)
  then show ?case by (simp add: handle_calls_checked)
qed


section \<open>The range of a month on well-formed dates\<close>














subsection \<open>The achievements of a calendar month\<close>





end
